theory Spec2Isabelle
  imports Main "HOL-Library.AList"
begin

section \<open>The PostgreSQL/S3 storage of the CodePush server\<close>

text \<open>
  This theory embeds \<^verbatim>\<open>src/api/script/storage/postgresql-s3-storage.ts\<close>. The relational
  store is a record of tables, each table the list of its rows in table order; a statement
  sent to the connection pool is a function on that record. A method of the class returns
  a promise: here a function from the store to the settled result (\<open>Inl\<close> a rejection,
  \<open>Inr\<close> a resolution) and the store the method leaves behind. Rejections keep the store,
  because the statements of a method commit one by one. The collaborator maps are
  JavaScript objects: what the methods read from and assign to \<^verbatim>\<open>Object.prototype\<close>
  through them is part of the state as well.
\<close>

subsection \<open>Errors\<close>

text \<open>
  \<^verbatim>\<open>storage.storageError(code, message)\<close> builds an error that carries one of the codes of
  the taxonomy. Everything else a method can reject with is not a storage error: a
  \<^verbatim>\<open>new Error(message)\<close>, the \<^verbatim>\<open>TypeError\<close> of reading a property of \<^verbatim>\<open>undefined\<close> or
  \<^verbatim>\<open>null\<close>, and the rejection of \<^verbatim>\<open>pool.query\<close> when a statement violates a constraint
  of the schema.
\<close>

datatype errorCode = NotFound | AlreadyExists | Expired | Invalid

datatype error = StorageError errorCode | JsError string | TypeError | QueryError

subsection \<open>Rows and tables\<close>

text \<open>
  One record per table of the schema, with the columns the storage class reads or writes
  (\<^verbatim>\<open>createdTime\<close> has a default and is never read). Timestamps are milliseconds since the
  epoch; a nullable column is an \<open>option\<close>.
\<close>

record account =
  acc_id :: string
  acc_name :: string
  acc_email :: string
  gitHubId :: string

datatype permission = Owner | Collaborator

text \<open>
  \<^verbatim>\<open>CollaboratorProperties\<close>: \<^verbatim>\<open>isCurrentAccount\<close> is an optional boolean, \<open>None\<close> when the
  property is absent from the object.
\<close>

record collaboratorProperties =
  cp_accountId :: string
  permission :: permission
  isCurrentAccount :: "bool option"

text \<open>
  A \<^verbatim>\<open>CollaboratorMap\<close> is a JavaScript object keyed by email, made by an object literal or
  by \<^verbatim>\<open>JSON.parse\<close> of the stored column, so its prototype is \<^verbatim>\<open>Object.prototype\<close>. It is
  modelled by the list of its own properties in insertion order, which is what
  \<^verbatim>\<open>Object.keys\<close> visits and what is stored. What a read or an assignment of a key does
  when the object has no own property of that name is defined below, with the members that
  every object inherits.
\<close>

type_synonym collaboratorMap = "(string \<times> collaboratorProperties) list"

record app =
  app_id :: string
  app_name :: string
  collaborators :: "collaboratorMap option"

record deployment =
  dep_id :: string
  dep_name :: string
  dep_appId :: string
  dep_key :: string

text \<open>
  \<^verbatim>\<open>storage.Package\<close>, the object callers pass and receive, and the row of the
  \<^verbatim>\<open>packages\<close> table, which adds the generated id and the deployment.
\<close>

record package =
  description :: "string option"
  isDisabled :: "bool option"
  isMandatory :: "bool option"
  rollout :: "int option"
  appVersion :: string
  packageHash :: string
  blobUrl :: "string option"
  pkg_size :: int
  manifestBlobUrl :: "string option"
  releaseMethod :: "string option"
  uploadTime :: int
  label :: "string option"
  originalLabel :: "string option"
  originalDeployment :: "string option"

record packageRow = package +
  pkg_id :: string
  pkg_deploymentId :: string

record accessKeyRow =
  key_id :: string
  key_name :: string

record accessKeyToAccount =
  map_accessKeyId :: string
  map_accountId :: string
  map_expires :: "int option"

text \<open>
  The store. \<open>account_to_apps_map\<close> holds the visibility links as pairs
  \<open>(accountId, appId)\<close>. \<open>queries\<close> counts the statements sent to the pool, reads
  included, so that a method that leaves it alone has not touched the store at all.

  The last field is not in the database: it is the part of the server process that the
  storage class can change, the \<^verbatim>\<open>permission\<close> properties that have been assigned to
  members of \<^verbatim>\<open>Object.prototype\<close>. The list is keyed by the name of the member; the name
  \<^verbatim>\<open>__proto__\<close> stands for \<^verbatim>\<open>Object.prototype\<close> itself. It is empty in a process that has
  assigned none.
\<close>

record store =
  accounts :: "account list"
  apps :: "app list"
  account_to_apps_map :: "(string \<times> string) list"
  deployments :: "deployment list"
  packages :: "packageRow list"
  access_keys :: "accessKeyRow list"
  access_key_to_account_map :: "accessKeyToAccount list"
  queries :: nat
  objectPrototype :: "(string \<times> permission) list"

subsection \<open>Promises\<close>

type_synonym 'a promise = "store \<Rightarrow> (error + 'a) \<times> store"

definition resolve :: "'a \<Rightarrow> 'a promise" where
  "resolve v = (\<lambda>s. (Inr v, s))"

definition reject :: "error \<Rightarrow> 'a promise" where
  "reject e = (\<lambda>s. (Inl e, s))"

text \<open>
  \<^verbatim>\<open>const x = await m; k(x)\<close> inside \<^verbatim>\<open>try { ... } catch (e) { return deferred.reject(e) }\<close>:
  a rejection of \<open>m\<close> is the rejection of the method.
\<close>

definition await :: "'a promise \<Rightarrow> ('a \<Rightarrow> 'b promise) \<Rightarrow> 'b promise" where
  "await m k = (\<lambda>s. case m s of (Inl e, s') \<Rightarrow> (Inl e, s') | (Inr v, s') \<Rightarrow> k v s')"

text \<open>A promise that is started and not awaited: its effect takes place, its result is dropped.\<close>

definition notAwaited :: "'a promise \<Rightarrow> unit promise" where
  "notAwaited m = (\<lambda>s. (Inr (), snd (m s)))"

text \<open>\<^verbatim>\<open>this.postgreSqlPool.query(text, values)\<close>: one more statement, then its effect.\<close>

definition poolQuery :: "'a promise \<Rightarrow> 'a promise" where
  "poolQuery stmt = (\<lambda>s. stmt (s\<lparr>queries := Suc (queries s)\<rparr>))"

definition selectRows :: "(store \<Rightarrow> 'a) \<Rightarrow> 'a promise" where
  "selectRows f = poolQuery (\<lambda>s. (Inr (f s), s))"

text \<open>
  Two stores hold the same rows: every table is the same. They may differ in the number of
  statements run and in what has been assigned to members of \<^verbatim>\<open>Object.prototype\<close>.
\<close>

definition sameRows :: "store \<Rightarrow> store \<Rightarrow> bool" where
  "sameRows s s' =
     (accounts s' = accounts s \<and> apps s' = apps s \<and>
      account_to_apps_map s' = account_to_apps_map s \<and>
      deployments s' = deployments s \<and> packages s' = packages s \<and>
      access_keys s' = access_keys s \<and>
      access_key_to_account_map s' = access_key_to_account_map s)"

text \<open>
  A synchronous step of a method body that reads the members of \<^verbatim>\<open>Object.prototype\<close>, and
  one that may assign to them or throw a \<^verbatim>\<open>TypeError\<close> (the value \<open>None\<close>), which the
  \<^verbatim>\<open>catch\<close> of the method turns into its rejection.
\<close>

definition withPrototype :: "((string \<times> permission) list \<Rightarrow> 'a promise) \<Rightarrow> 'a promise" where
  "withPrototype k = (\<lambda>s. k (objectPrototype s) s)"

definition throwing ::
  "((string \<times> permission) list \<Rightarrow> ('a \<times> (string \<times> permission) list) option) \<Rightarrow> 'a promise" where
  "throwing step =
     (\<lambda>s. case step (objectPrototype s) of
            None \<Rightarrow> (Inl TypeError, s)
          | Some (v, assigned) \<Rightarrow> (Inr v, s\<lparr>objectPrototype := assigned\<rparr>))"

subsection \<open>Strings\<close>

text \<open>
  A JavaScript string is a \<open>string\<close> here, the list of the bytes of its UTF-8 encoding;
  the methods compare strings for equality only. \<^verbatim>\<open>String.prototype.toLowerCase\<close> is
  the parameter \<open>toLowerCase\<close> of the methods that call it: the theorems hold for every
  function on strings, the conversion of the Unicode standard among them. The examples use
  strings of ASCII characters, which \<^verbatim>\<open>toLowerCase\<close> converts as \<open>asciiLowerCase\<close> does.
\<close>

definition lowerChar :: "char \<Rightarrow> char" where
  "lowerChar c =
     (let n = (of_char c :: nat) in if 65 \<le> n \<and> n \<le> 90 then char_of (n + 32) else c)"

definition asciiLowerCase :: "string \<Rightarrow> string" where
  "asciiLowerCase str = map lowerChar str"

text \<open>The decimal numeral of a natural number, as \<^verbatim>\<open>"v" + n\<close> prints it.\<close>

definition digitChar :: "nat \<Rightarrow> char" where
  "digitChar d = char_of (48 + d)"

function numberToString :: "nat \<Rightarrow> string" where
  "numberToString n =
     (if n < 10 then [digitChar n] else numberToString (n div 10) @ [digitChar (n mod 10)])"
  by pat_completeness auto
termination
  by (relation "measure (\<lambda>n. n)") auto

declare numberToString.simps [simp del]

subsection \<open>Accounts and access keys\<close>

definition getAccount :: "string \<Rightarrow> account promise" where
  "getAccount accountId =
     await (selectRows (\<lambda>s. find (\<lambda>a. acc_id a = accountId) (accounts s)))
       (\<lambda>account. case account of
           None \<Rightarrow> reject (StorageError NotFound)
         | Some a \<Rightarrow> resolve a)"

definition getAccountByEmail :: "string \<Rightarrow> account promise" where
  "getAccountByEmail email =
     await (selectRows (\<lambda>s. find (\<lambda>a. acc_email a = email) (accounts s)))
       (\<lambda>account. case account of
           None \<Rightarrow> reject (StorageError NotFound)
         | Some a \<Rightarrow> resolve a)"

text \<open>
  The rows of \<^verbatim>\<open>access_keys a JOIN access_key_to_account_map b ON b."accessKeyId"=a.id
  WHERE a.name=$1\<close>.
\<close>

definition accessKeyJoin :: "string \<Rightarrow> store \<Rightarrow> accessKeyToAccount list" where
  "accessKeyJoin accessKey s =
     concat (map (\<lambda>a. filter (\<lambda>b. map_accessKeyId b = key_id a) (access_key_to_account_map s))
                 (filter (\<lambda>a. key_name a = accessKey) (access_keys s)))"

text \<open>
  \<^verbatim>\<open>new Date().getTime() >= data.expires\<close>: the clock \<open>now\<close> is a parameter, and a
  \<^verbatim>\<open>null\<close> expiry compares as 0.
\<close>

definition getAccountIdFromAccessKey :: "int \<Rightarrow> string \<Rightarrow> string promise" where
  "getAccountIdFromAccessKey now accessKey =
     await (selectRows (accessKeyJoin accessKey))
       (\<lambda>rows. case rows of
           [] \<Rightarrow> reject (StorageError NotFound)
         | data # _ \<Rightarrow>
             if now \<ge> (case map_expires data of None \<Rightarrow> 0 | Some t \<Rightarrow> t)
             then reject (StorageError Expired)
             else resolve (map_accountId data))"

subsection \<open>Properties of a collaborator map\<close>

text \<open>
  The names of the members of \<^verbatim>\<open>Object.prototype\<close>. Eleven of them are functions
  (\<^verbatim>\<open>constructor\<close> is \<^verbatim>\<open>Object\<close>); \<^verbatim>\<open>__proto__\<close> is an accessor whose getter returns the
  prototype of the object, here \<^verbatim>\<open>Object.prototype\<close>, and whose setter replaces it.
\<close>

definition inheritedNames :: "string list" where
  "inheritedNames =
     [''constructor'', ''__defineGetter__'', ''__defineSetter__'', ''hasOwnProperty'',
      ''__lookupGetter__'', ''__lookupSetter__'', ''isPrototypeOf'', ''propertyIsEnumerable'',
      ''toString'', ''valueOf'', ''__proto__'', ''toLocaleString'']"

text \<open>
  The value of \<^verbatim>\<open>list[email]\<close>. An own property is found first. Otherwise the read goes to
  \<^verbatim>\<open>Object.prototype\<close> and finds the member of that name; once a \<^verbatim>\<open>permission\<close> has been
  assigned to \<^verbatim>\<open>Object.prototype\<close> itself, the name \<^verbatim>\<open>permission\<close> is found there too, and
  its value is a string. Every other name gives \<^verbatim>\<open>undefined\<close>.
\<close>

datatype member =
    Entry collaboratorProperties
  | Inherited string
  | PermissionString permission
  | Undefined

definition getMember :: "(string \<times> permission) list \<Rightarrow> collaboratorMap \<Rightarrow> string \<Rightarrow> member" where
  "getMember assigned m email =
     (case map_of m email of
        Some p \<Rightarrow> Entry p
      | None \<Rightarrow>
          if email \<in> set inheritedNames then Inherited email
          else if email = ''permission'' then
            (case map_of assigned ''__proto__'' of
               None \<Rightarrow> Undefined
             | Some v \<Rightarrow> PermissionString v)
          else Undefined)"

text \<open>
  \<^verbatim>\<open>x.permission\<close> for a value \<open>x\<close> that \<open>getMember\<close> returned, \<open>None\<close> when it is
  \<^verbatim>\<open>undefined\<close>. A member of \<^verbatim>\<open>Object.prototype\<close> has the property when it was assigned
  to it, or else when it was assigned to \<^verbatim>\<open>Object.prototype\<close>, from which functions and
  strings inherit as well.
\<close>

definition memberPermission :: "(string \<times> permission) list \<Rightarrow> member \<Rightarrow> permission option" where
  "memberPermission assigned x =
     (case x of
        Entry p \<Rightarrow> Some (permission p)
      | Inherited name \<Rightarrow>
          (case map_of assigned name of
             Some v \<Rightarrow> Some v
           | None \<Rightarrow> map_of assigned ''__proto__'')
      | PermissionString v \<Rightarrow> Some v
      | Undefined \<Rightarrow> None)"

text \<open>
  \<^verbatim>\<open>list && list[email] && list[email].permission === storage.Permissions.Owner\<close>, and the
  same for \<^verbatim>\<open>Collaborator\<close>. The \<^verbatim>\<open>collaborators\<close> column is nullable; every value but
  \<^verbatim>\<open>undefined\<close> that \<^verbatim>\<open>list[email]\<close> can have is truthy.
\<close>

definition isOwner :: "(string \<times> permission) list \<Rightarrow> collaboratorMap option \<Rightarrow> string \<Rightarrow> bool" where
  "isOwner assigned list email =
     (case list of
        None \<Rightarrow> False
      | Some m \<Rightarrow> memberPermission assigned (getMember assigned m email) = Some Owner)"

definition isCollaborator ::
  "(string \<times> permission) list \<Rightarrow> collaboratorMap option \<Rightarrow> string \<Rightarrow> bool" where
  "isCollaborator assigned list email =
     (case list of
        None \<Rightarrow> False
      | Some m \<Rightarrow> memberPermission assigned (getMember assigned m email) = Some Collaborator)"

text \<open>
  \<^verbatim>\<open>list[email].permission = perm\<close>. On an own entry it changes the entry. On a member of
  \<^verbatim>\<open>Object.prototype\<close> it assigns the property to that member and leaves the map as it
  was. It throws a \<^verbatim>\<open>TypeError\<close> (here \<open>None\<close>) when the map is \<^verbatim>\<open>null\<close>, when
  \<^verbatim>\<open>list[email]\<close> is \<^verbatim>\<open>undefined\<close>, and when it is a string: the module is strict code,
  where a property cannot be created on a primitive value.
\<close>

definition setPermission ::
  "(string \<times> permission) list \<Rightarrow> collaboratorMap option \<Rightarrow> string \<Rightarrow> permission \<Rightarrow>
     (collaboratorMap \<times> (string \<times> permission) list) option" where
  "setPermission assigned list email perm =
     (case list of
        None \<Rightarrow> None
      | Some m \<Rightarrow>
          (case getMember assigned m email of
             Entry p \<Rightarrow> Some (AList.update email (p\<lparr>permission := perm\<rparr>) m, assigned)
           | Inherited name \<Rightarrow> Some (m, AList.update name perm assigned)
           | PermissionString v \<Rightarrow> None
           | Undefined \<Rightarrow> None))"

text \<open>
  \<^verbatim>\<open>list[email] = p\<close> for an object \<open>p\<close>. An own property is overwritten in place, a new
  one is added at the end. When the map has no own property \<^verbatim>\<open>__proto__\<close>, the assignment
  of that name runs the setter inherited from \<^verbatim>\<open>Object.prototype\<close>: \<open>p\<close> becomes the
  prototype of the map, and the map gets no own property. The methods below read no
  inherited name from a map after such an assignment; they store its own properties.
\<close>

definition assignEntry ::
  "string \<Rightarrow> collaboratorProperties \<Rightarrow> collaboratorMap \<Rightarrow> collaboratorMap" where
  "assignEntry email p m =
     (if email = ''__proto__'' \<and> map_of m email = None then m else AList.update email p m)"

subsection \<open>Apps and collaborators\<close>

text \<open>
  \<^verbatim>\<open>Object.keys(app.collaborators).forEach\<close>: every entry is visited once, and the body
  \<open>f\<close> touches the visited entry only.
\<close>

definition forEachEntry ::
  "(collaboratorProperties \<Rightarrow> collaboratorProperties) \<Rightarrow> collaboratorMap \<Rightarrow> collaboratorMap" where
  "forEachEntry f m = map (\<lambda>(email, p). (email, f p)) m"

text \<open>
  \<^verbatim>\<open>if (app.collaborators[email].accountId === accountId)
  app.collaborators[email].isCurrentAccount = true\<close>
\<close>

definition setIsCurrentAccount :: "string \<Rightarrow> collaboratorProperties \<Rightarrow> collaboratorProperties" where
  "setIsCurrentAccount accountId p =
     (if cp_accountId p = accountId then p\<lparr>isCurrentAccount := Some True\<rparr> else p)"

definition addIsCurrentAccountProperty :: "app \<Rightarrow> string \<Rightarrow> app" where
  "addIsCurrentAccountProperty app accountId =
     app\<lparr>collaborators :=
       map_option (forEachEntry (setIsCurrentAccount accountId)) (collaborators app)\<rparr>"

text \<open>
  \<^verbatim>\<open>if (app.collaborators[email].isCurrentAccount)
  delete app.collaborators[email].isCurrentAccount\<close>: the property is deleted where it is
  truthy.
\<close>

definition deleteIsCurrentAccount :: "collaboratorProperties \<Rightarrow> collaboratorProperties" where
  "deleteIsCurrentAccount p =
     (if isCurrentAccount p = Some True then p\<lparr>isCurrentAccount := None\<rparr> else p)"

definition removeIsCurrentAccountProperty :: "app \<Rightarrow> app" where
  "removeIsCurrentAccountProperty app =
     app\<lparr>collaborators := map_option (forEachEntry deleteIsCurrentAccount) (collaborators app)\<rparr>"

text \<open>
  \<^verbatim>\<open>INSERT INTO account_to_apps_map\<close>: the pair is the primary key of the table, so a second
  insertion of the same pair is refused by the store. The accounts and apps the pairs
  refer to have been read by the caller just before.
\<close>

definition insertAccountToApp :: "string \<Rightarrow> string \<Rightarrow> unit promise" where
  "insertAccountToApp accountId appId =
     (\<lambda>s. if (accountId, appId) \<in> set (account_to_apps_map s) then (Inl QueryError, s)
          else (Inr (), s\<lparr>account_to_apps_map := account_to_apps_map s @ [(accountId, appId)]\<rparr>))"

definition addAppPointer :: "string \<Rightarrow> string \<Rightarrow> unit promise" where
  "addAppPointer accountId appId = poolQuery (insertAccountToApp accountId appId)"

definition removeAppPointer :: "string \<Rightarrow> string \<Rightarrow> unit promise" where
  "removeAppPointer accountId appId =
     poolQuery (\<lambda>s. (Inr (),
       s\<lparr>account_to_apps_map := filter (\<lambda>l. l \<noteq> (accountId, appId)) (account_to_apps_map s)\<rparr>))"

text \<open>
  \<^verbatim>\<open>INSERT INTO apps ... RETURNING id\<close>, with the id that \<^verbatim>\<open>uuidv4()\<close> produced (a parameter
  of the model); \<^verbatim>\<open>id\<close> is the primary key.
\<close>

definition insertApp :: "string \<Rightarrow> string \<Rightarrow> collaboratorMap \<Rightarrow> string promise" where
  "insertApp uuid name collabs =
     (\<lambda>s. if uuid \<in> app_id ` set (apps s) then (Inl QueryError, s)
          else (Inr uuid,
                s\<lparr>apps := apps s @ [\<lparr>app_id = uuid, app_name = name, collaborators = Some collabs\<rparr>]\<rparr>))"

definition addApp :: "string \<Rightarrow> app \<Rightarrow> string \<Rightarrow> app promise" where
  "addApp accountId app uuid =
     await (getAccount accountId) (\<lambda>account.
       let collabs = assignEntry (acc_email account)
                       \<lparr>cp_accountId = accountId, permission = Owner, isCurrentAccount = None\<rparr> []
       in await (poolQuery (insertApp uuid (app_name app) collabs)) (\<lambda>newId.
          await (poolQuery (insertAccountToApp (acc_id account) newId)) (\<lambda>_.
            resolve (app\<lparr>collaborators := Some collabs, app_id := newId\<rparr>))))"

definition getApp :: "string \<Rightarrow> string \<Rightarrow> app promise" where
  "getApp accountId appId =
     await (getAccount accountId) (\<lambda>account.
       await (selectRows (\<lambda>s. find (\<lambda>a. app_id a = appId) (apps s))) (\<lambda>row.
         case row of
           None \<Rightarrow> reject (StorageError NotFound)
         | Some app \<Rightarrow> resolve (addIsCurrentAccountProperty app (acc_id account))))"

text \<open>
  \<^verbatim>\<open>SELECT * FROM account_to_apps_map WHERE "appId"=$1\<close>, then \<^verbatim>\<open>res.rows[0].accountId\<close>:
  the first link of the app in table order, and a \<^verbatim>\<open>TypeError\<close> when there is none.
\<close>

definition getAppAccountId :: "string \<Rightarrow> string promise" where
  "getAppAccountId appId =
     await (selectRows (\<lambda>s. find (\<lambda>l. snd l = appId) (account_to_apps_map s))) (\<lambda>data.
       case data of
         None \<Rightarrow> reject TypeError
       | Some l \<Rightarrow> resolve (fst l))"

text \<open>
  \<^verbatim>\<open>DELETE FROM apps WHERE id=$1\<close> with the cascades of the schema: the deployments of the
  app, their packages, and the links to the app.
\<close>

definition deleteApp :: "string \<Rightarrow> unit promise" where
  "deleteApp appId =
     (\<lambda>s. let gone = map dep_id (filter (\<lambda>d. dep_appId d = appId) (deployments s))
          in (Inr (),
              s\<lparr>apps := filter (\<lambda>a. app_id a \<noteq> appId) (apps s),
                deployments := filter (\<lambda>d. dep_appId d \<noteq> appId) (deployments s),
                packages := filter (\<lambda>p. pkg_deploymentId p \<notin> set gone) (packages s),
                account_to_apps_map := filter (\<lambda>l. snd l \<noteq> appId) (account_to_apps_map s)\<rparr>))"

definition removeApp :: "string \<Rightarrow> string \<Rightarrow> unit promise" where
  "removeApp accountId appId =
     await (getAppAccountId appId) (\<lambda>appAccountId.
       if accountId \<noteq> appAccountId then reject (JsError ''Wrong accountId'')
       else poolQuery (deleteApp appId))"

text \<open>\<^verbatim>\<open>UPDATE apps SET name=$1, collaborators=$2 WHERE id=$3\<close>.\<close>

definition updateAppRow :: "app \<Rightarrow> unit promise" where
  "updateAppRow app =
     (\<lambda>s. (Inr (),
           s\<lparr>apps := map (\<lambda>row. if app_id row = app_id app
                                then row\<lparr>app_name := app_name app, collaborators := collaborators app\<rparr>
                                else row) (apps s)\<rparr>))"

text \<open>The parameter \<^verbatim>\<open>ensureIsOwner\<close> is not read by the body.\<close>

definition updateApp :: "string \<Rightarrow> app \<Rightarrow> bool \<Rightarrow> unit promise" where
  "updateApp accountId app ensureIsOwner =
     await (getApp accountId (app_id app)) (\<lambda>_.
       poolQuery (updateAppRow (removeIsCurrentAccountProperty app)))"

text \<open>
  \<^verbatim>\<open>isPrototypePollutionKey\<close> is imported from \<^verbatim>\<open>./storage\<close>, which is not part of the
  sources at hand: it is the parameter \<open>isPrototypePollutionKey\<close> of the two methods that
  call it. In \<open>transferApp\<close> the call of \<^verbatim>\<open>addAppPointer\<close> is not awaited.
\<close>

definition transferApp ::
  "(string \<Rightarrow> bool) \<Rightarrow> (string \<Rightarrow> string) \<Rightarrow> string \<Rightarrow> string \<Rightarrow> string \<Rightarrow> unit promise" where
  "transferApp isPrototypePollutionKey toLowerCase accountId appId email =
     (if isPrototypePollutionKey email then reject (StorageError Invalid)
      else
        await (getApp accountId appId) (\<lambda>app.
        await (getAccount accountId) (\<lambda>account.
        let requesterEmail = acc_email account in
        await (getAccountByEmail (toLowerCase email)) (\<lambda>targetOwnerAccount.
        let targetOwnerAccountId = acc_id targetOwnerAccount;
            email = acc_email targetOwnerAccount
        in withPrototype (\<lambda>assigned.
           if isOwner assigned (collaborators app) email then reject (StorageError AlreadyExists)
           else
             await (throwing (\<lambda>assigned.
                      setPermission assigned (collaborators app) requesterEmail Collaborator))
               (\<lambda>demoted.
             withPrototype (\<lambda>assigned.
               if isCollaborator assigned (Some demoted) email then
                 await (throwing (\<lambda>assigned. setPermission assigned (Some demoted) email Owner))
                   (\<lambda>promoted. updateApp accountId (app\<lparr>collaborators := Some promoted\<rparr>) True)
               else
                 await (notAwaited (addAppPointer targetOwnerAccountId (app_id app))) (\<lambda>_.
                   updateApp accountId
                     (app\<lparr>collaborators := Some (assignEntry email
                         \<lparr>cp_accountId = targetOwnerAccountId, permission = Owner,
                          isCurrentAccount = None\<rparr> demoted)\<rparr>) True))))))))"

definition addCollaborator ::
  "(string \<Rightarrow> bool) \<Rightarrow> (string \<Rightarrow> string) \<Rightarrow> string \<Rightarrow> string \<Rightarrow> string \<Rightarrow> unit promise" where
  "addCollaborator isPrototypePollutionKey toLowerCase accountId appId email =
     (if isPrototypePollutionKey email then reject (StorageError Invalid)
      else
        await (getApp accountId appId) (\<lambda>app.
        withPrototype (\<lambda>assigned.
        if isCollaborator assigned (collaborators app) email \<or>
           isOwner assigned (collaborators app) email
        then reject (StorageError AlreadyExists)
        else
          await (getAccountByEmail (toLowerCase email)) (\<lambda>targetCollaboratorAccount.
          let targetCollaboratorAccountId = acc_id targetCollaboratorAccount;
              email = acc_email targetCollaboratorAccount
          in case collaborators app of
               None \<Rightarrow> reject TypeError
             | Some m \<Rightarrow>
                 await (addAppPointer targetCollaboratorAccountId (app_id app)) (\<lambda>_.
                   updateApp accountId
                     (app\<lparr>collaborators := Some (assignEntry email
                         \<lparr>cp_accountId = targetCollaboratorAccountId, permission = Collaborator,
                          isCurrentAccount = None\<rparr> m)\<rparr>) True)))))"

text \<open>
  \<^verbatim>\<open>!targetCollaboratorAccountId\<close> holds of the empty string. \<^verbatim>\<open>delete list[email]\<close>
  removes an own property and does nothing when there is none of that name.
\<close>

definition removeCollaborator ::
  "(string \<Rightarrow> string) \<Rightarrow> string \<Rightarrow> string \<Rightarrow> string \<Rightarrow> unit promise" where
  "removeCollaborator toLowerCase accountId appId email =
     await (getApp accountId appId) (\<lambda>app.
     withPrototype (\<lambda>assigned.
       if isOwner assigned (collaborators app) email then reject (StorageError NotFound)
       else
         await (getAccountByEmail (toLowerCase email)) (\<lambda>targetCollaboratorAccount.
         let targetCollaboratorAccountId = acc_id targetCollaboratorAccount
         in if \<not> isCollaborator assigned (collaborators app) email \<or>
               targetCollaboratorAccountId = []
            then reject (StorageError NotFound)
            else
              await (removeAppPointer targetCollaboratorAccountId appId) (\<lambda>_.
                case collaborators app of
                  None \<Rightarrow> reject TypeError
                | Some m \<Rightarrow>
                    updateApp accountId (app\<lparr>collaborators := Some (AList.delete email m)\<rparr>) False))))"

subsection \<open>Deployments\<close>

definition getDeployment :: "string \<Rightarrow> string \<Rightarrow> string \<Rightarrow> deployment promise" where
  "getDeployment accountId appId deploymentId =
     await (getApp accountId appId) (\<lambda>_.
       await (selectRows (\<lambda>s. find (\<lambda>d. dep_id d = deploymentId) (deployments s))) (\<lambda>row.
         case row of
           None \<Rightarrow> reject (StorageError NotFound)
         | Some deployment \<Rightarrow> resolve deployment))"

record deploymentInfo =
  info_appId :: string
  info_deploymentId :: string

text \<open>
  \<^verbatim>\<open>deployment.package\<close>: a row of \<^verbatim>\<open>deployments\<close> has the columns \<^verbatim>\<open>id\<close>, \<^verbatim>\<open>name\<close>,
  \<^verbatim>\<open>appId\<close>, \<^verbatim>\<open>createdTime\<close> and \<^verbatim>\<open>key\<close>, so the property \<^verbatim>\<open>package\<close> is \<^verbatim>\<open>undefined\<close>.
\<close>

record deploymentPackage =
  package_appId :: string

definition deployment_package :: "deployment \<Rightarrow> deploymentPackage option" where
  "deployment_package deployment = None"

text \<open>
  The body of \<^verbatim>\<open>getDeploymentInfo\<close> runs outside any \<^verbatim>\<open>try\<close>: an exception thrown in it
  settles nothing, and the promise the method returned stays pending. The result \<open>None\<close>
  is that promise.
\<close>

definition getDeploymentInfo :: "string \<Rightarrow> store \<Rightarrow> (error + deploymentInfo) option \<times> store" where
  "getDeploymentInfo deploymentKey s =
     (case selectRows (\<lambda>s. find (\<lambda>d. dep_key d = deploymentKey) (deployments s)) s of
        (Inl e, s') \<Rightarrow> (None, s')
      | (Inr None, s') \<Rightarrow> (Some (Inl (StorageError NotFound)), s')
      | (Inr (Some deployment), s') \<Rightarrow>
          (case deployment_package deployment of
             None \<Rightarrow> (None, s')
           | Some pkg \<Rightarrow>
               let appId = package_appId pkg
               in if appId = [] then (Some (Inl (StorageError NotFound)), s')
                  else (Some (Inr \<lparr>info_appId = appId, info_deploymentId = dep_id deployment\<rparr>), s')))"

subsection \<open>Packages\<close>

text \<open>
  \<^verbatim>\<open>SELECT id FROM packages WHERE "deploymentId"=$1 ORDER BY "uploadTime" DESC LIMIT 1\<close>:
  a row of the deployment with the greatest upload time. SQL leaves the choice among
  equal upload times open; the model takes the first such row in table order.
\<close>

definition latestPackage :: "string \<Rightarrow> packageRow list \<Rightarrow> packageRow option" where
  "latestPackage deploymentId rows =
     (case filter (\<lambda>p. pkg_deploymentId p = deploymentId) rows of
        [] \<Rightarrow> None
      | p # ps \<Rightarrow> Some (foldl (\<lambda>best q. if uploadTime best < uploadTime q then q else best) p ps))"

text \<open>\<^verbatim>\<open>UPDATE packages SET rollout=NULL WHERE id=(SELECT ...)\<close>.\<close>

definition clearLatestRollout :: "string \<Rightarrow> unit promise" where
  "clearLatestRollout deploymentId =
     (\<lambda>s. (Inr (),
           s\<lparr>packages :=
               (case latestPackage deploymentId (packages s) of
                  None \<Rightarrow> packages s
                | Some latest \<Rightarrow>
                    map (\<lambda>p. if pkg_id p = pkg_id latest then p\<lparr>rollout := None\<rparr> else p)
                        (packages s))\<rparr>))"

text \<open>
  \<^verbatim>\<open>INSERT INTO packages(...) VALUES(...)\<close> with the values of \<^verbatim>\<open>queryPackageValues\<close>;
  \<^verbatim>\<open>!!x\<close> is true for \<^verbatim>\<open>true\<close> only. \<^verbatim>\<open>id\<close> is the primary key.
\<close>

definition insertPackage :: "string \<Rightarrow> string \<Rightarrow> package \<Rightarrow> unit promise" where
  "insertPackage uuid deploymentId appPackage =
     (\<lambda>s. if uuid \<in> pkg_id ` set (packages s) then (Inl QueryError, s)
          else (Inr (),
                s\<lparr>packages := packages s @
                  [\<lparr>description = description appPackage,
                    isDisabled = Some (isDisabled appPackage = Some True),
                    isMandatory = Some (isMandatory appPackage = Some True),
                    rollout = rollout appPackage,
                    appVersion = appVersion appPackage,
                    packageHash = packageHash appPackage,
                    blobUrl = blobUrl appPackage,
                    pkg_size = pkg_size appPackage,
                    manifestBlobUrl = manifestBlobUrl appPackage,
                    releaseMethod = releaseMethod appPackage,
                    uploadTime = uploadTime appPackage,
                    label = label appPackage,
                    originalLabel = originalLabel appPackage,
                    originalDeployment = originalDeployment appPackage,
                    pkg_id = uuid,
                    pkg_deploymentId = deploymentId\<rparr>]\<rparr>))"

definition commitPackage :: "string \<Rightarrow> string \<Rightarrow> string \<Rightarrow> package \<Rightarrow> string \<Rightarrow> package promise" where
  "commitPackage accountId appId deploymentId appPackage uuid =
     await (getDeployment accountId appId deploymentId) (\<lambda>_.
     await (poolQuery (clearLatestRollout deploymentId)) (\<lambda>_.
     await (selectRows (\<lambda>s. length (filter (\<lambda>p. pkg_deploymentId p = deploymentId) (packages s))))
       (\<lambda>count.
     let labelled = appPackage\<lparr>label := Some (''v'' @ numberToString (count + 1))\<rparr>
     in await (poolQuery (insertPackage uuid deploymentId labelled)) (\<lambda>_.
          resolve labelled))))"

text \<open>
  One \<^verbatim>\<open>UPDATE "packages" SET ... WHERE "id" = $13\<close> of the loop of \<^verbatim>\<open>updatePackageHistory\<close>.
  The columns \<^verbatim>\<open>isDisabled\<close> and \<^verbatim>\<open>isMandatory\<close> are \<^verbatim>\<open>NOT NULL\<close>.
\<close>

definition updatePackageRow :: "packageRow \<Rightarrow> unit promise" where
  "updatePackageRow h =
     (\<lambda>s. if (\<exists>p \<in> set (packages s). pkg_id p = pkg_id h) \<and> (isDisabled h = None \<or> isMandatory h = None)
          then (Inl QueryError, s)
          else (Inr (),
                s\<lparr>packages :=
                    map (\<lambda>p. if pkg_id p = pkg_id h
                             then p\<lparr>rollout := rollout h, description := description h,
                                    isDisabled := isDisabled h, isMandatory := isMandatory h,
                                    appVersion := appVersion h, packageHash := packageHash h,
                                    blobUrl := blobUrl h, pkg_size := pkg_size h,
                                    manifestBlobUrl := manifestBlobUrl h,
                                    releaseMethod := releaseMethod h,
                                    uploadTime := uploadTime h, label := label h\<rparr>
                             else p) (packages s)\<rparr>))"

fun updatePackageRows :: "packageRow list \<Rightarrow> unit promise" where
  "updatePackageRows [] = resolve ()"
| "updatePackageRows (h # history) =
     await (poolQuery (updatePackageRow h)) (\<lambda>_. updatePackageRows history)"

definition updatePackageHistory :: "string \<Rightarrow> string \<Rightarrow> string \<Rightarrow> packageRow list \<Rightarrow> unit promise" where
  "updatePackageHistory accountId appId deploymentId history =
     (if history = [] then reject (StorageError Invalid)
      else
        await (getDeployment accountId appId deploymentId) (\<lambda>_.
          updatePackageRows history))"

subsection \<open>Registering accounts\<close>

text \<open>
  \<^verbatim>\<open>INSERT INTO accounts\<close>: \<^verbatim>\<open>id\<close> is the primary key and \<^verbatim>\<open>email\<close> is unique. In
  \<open>addAccount\<close> the inner \<^verbatim>\<open>try\<close> rejects with \<open>AlreadyExists\<close> when the lower-case email
  is taken, passes every error but \<open>NotFound\<close> on, and goes on to the insertion otherwise.
\<close>

definition insertAccount :: "string \<Rightarrow> string \<Rightarrow> string \<Rightarrow> string \<Rightarrow> string promise" where
  "insertAccount uuid name email hub =
     (\<lambda>s. if uuid \<in> acc_id ` set (accounts s) \<or> email \<in> acc_email ` set (accounts s)
          then (Inl QueryError, s)
          else (Inr uuid,
                s\<lparr>accounts := accounts s @
                    [\<lparr>acc_id = uuid, acc_name = name, acc_email = email, gitHubId = hub\<rparr>]\<rparr>))"

definition addAccount :: "(string \<Rightarrow> string) \<Rightarrow> account \<Rightarrow> string \<Rightarrow> string promise" where
  "addAccount toLowerCase account uuid =
     (let email = toLowerCase (acc_email account)
      in (\<lambda>s. case getAccountByEmail email s of
                (Inr isExist, s') \<Rightarrow> (Inl (StorageError AlreadyExists), s')
              | (Inl e, s') \<Rightarrow>
                  if e \<noteq> StorageError NotFound then (Inl e, s')
                  else poolQuery (insertAccount uuid (acc_name account) email (gitHubId account)) s'))"

subsection \<open>Stores kept consistent by the collaborator operations\<close>

text \<open>
  \<open>oneOwner\<close>: exactly one entry of the map has the permission Owner. \<open>linkedEntries\<close>:
  every key of the map is the email of an account that has a visibility link to the app.
  \<open>registeredAccounts\<close>: the accounts have unique ids and unique emails, every email is
  left as it is by \<open>toLowerCase\<close> (as \<open>addAccount\<close> stores it), and none is the name
  \<^verbatim>\<open>__proto__\<close>. A store is \<open>consistent\<close> when its accounts are registered, no
  \<^verbatim>\<open>permission\<close> has been assigned to a member of \<^verbatim>\<open>Object.prototype\<close>, and every app has a
  map with distinct keys, one Owner and linked entries.
\<close>

definition oneOwner :: "collaboratorMap \<Rightarrow> bool" where
  "oneOwner m = (length (filter (\<lambda>(email, p). permission p = Owner) m) = 1)"

definition linkedEntries :: "store \<Rightarrow> string \<Rightarrow> collaboratorMap \<Rightarrow> bool" where
  "linkedEntries s appId m =
     (\<forall>email \<in> fst ` set m. \<exists>a \<in> set (accounts s).
        acc_email a = email \<and> (acc_id a, appId) \<in> set (account_to_apps_map s))"

definition registeredAccounts :: "(string \<Rightarrow> string) \<Rightarrow> store \<Rightarrow> bool" where
  "registeredAccounts toLowerCase s =
     (distinct (map acc_id (accounts s)) \<and> distinct (map acc_email (accounts s)) \<and>
      (\<forall>a \<in> set (accounts s).
         toLowerCase (acc_email a) = acc_email a \<and> acc_email a \<noteq> ''__proto__''))"

definition wellFormedApp :: "store \<Rightarrow> app \<Rightarrow> bool" where
  "wellFormedApp s row =
     (case collaborators row of
        None \<Rightarrow> False
      | Some m \<Rightarrow> distinct (map fst m) \<and> oneOwner m \<and> linkedEntries s (app_id row) m)"

definition consistent :: "(string \<Rightarrow> string) \<Rightarrow> store \<Rightarrow> bool" where
  "consistent toLowerCase s =
     (registeredAccounts toLowerCase s \<and> objectPrototype s = [] \<and>
      (\<forall>row \<in> set (apps s). wellFormedApp s row))"

text \<open>
  Sequences of operations. \<open>issuedByOwner\<close> holds of a transfer when the requesting
  account holds the Owner entry of the app, and of every other operation. \<open>performAll\<close> runs
  the operations in order and returns the store after each one; it returns \<open>None\<close> as soon as
  an operation is rejected or a transfer is not issued by the Owner. \<open>ownedOnce\<close>: every app
  of the store has a map with exactly one Owner.
\<close>

datatype operation =
    AddApp string app string
  | TransferApp string string string
  | AddCollaborator string string string
  | RemoveCollaborator string string string

definition perform :: "(string \<Rightarrow> bool) \<Rightarrow> (string \<Rightarrow> string) \<Rightarrow> operation \<Rightarrow> unit promise" where
  "perform isPrototypePollutionKey toLowerCase operation =
     (case operation of
        AddApp accountId app uuid \<Rightarrow> await (addApp accountId app uuid) (\<lambda>_. resolve ())
      | TransferApp accountId appId email \<Rightarrow>
          transferApp isPrototypePollutionKey toLowerCase accountId appId email
      | AddCollaborator accountId appId email \<Rightarrow>
          addCollaborator isPrototypePollutionKey toLowerCase accountId appId email
      | RemoveCollaborator accountId appId email \<Rightarrow>
          removeCollaborator toLowerCase accountId appId email)"

definition issuedByOwner :: "operation \<Rightarrow> store \<Rightarrow> bool" where
  "issuedByOwner operation s =
     (case operation of
        TransferApp accountId appId email \<Rightarrow>
          (case find (\<lambda>a. acc_id a = accountId) (accounts s) of
             None \<Rightarrow> False
           | Some account \<Rightarrow>
               (case find (\<lambda>a. app_id a = appId) (apps s) of
                  None \<Rightarrow> False
                | Some app \<Rightarrow>
                    isOwner (objectPrototype s) (collaborators app) (acc_email account)))
      | _ \<Rightarrow> True)"

fun performAll ::
  "(string \<Rightarrow> bool) \<Rightarrow> (string \<Rightarrow> string) \<Rightarrow> operation list \<Rightarrow> store \<Rightarrow> store list option" where
  "performAll isPrototypePollutionKey toLowerCase [] s = Some []"
| "performAll isPrototypePollutionKey toLowerCase (operation # operations) s =
     (if \<not> issuedByOwner operation s then None
      else case perform isPrototypePollutionKey toLowerCase operation s of
             (Inl e, s') \<Rightarrow> None
           | (Inr u, s') \<Rightarrow>
               map_option ((#) s') (performAll isPrototypePollutionKey toLowerCase operations s'))"

definition ownedOnce :: "store \<Rightarrow> bool" where
  "ownedOnce s =
     list_all (\<lambda>row. case collaborators row of None \<Rightarrow> False | Some m \<Rightarrow> oneOwner m) (apps s)"

subsection \<open>Sequences of commits\<close>

text \<open>
  \<open>commitPackages\<close>: one \<open>commitPackage\<close> after the other on the same deployment, each
  with the id that \<^verbatim>\<open>uuidv4()\<close> gave it. \<open>deploymentPackages\<close>: the rows of a deployment in
  table order. \<open>labelsFrom i n\<close>: the \<open>n\<close> labels \<^verbatim>\<open>v\<close>\<open>i\<close>, \<^verbatim>\<open>v\<close>\<open>(i+1)\<close>, ...
  \<open>clearRollout\<close>: what the \<^verbatim>\<open>UPDATE\<close> of \<open>clearLatestRollout\<close> does to one row.
  \<open>stagedOnlyLast\<close>: the upload times of the deployment's rows increase strictly in table
  order and no row but the last has a rollout.
\<close>

fun commitPackages ::
  "string \<Rightarrow> string \<Rightarrow> string \<Rightarrow> (package \<times> string) list \<Rightarrow> package list promise" where
  "commitPackages accountId appId deploymentId [] = resolve []"
| "commitPackages accountId appId deploymentId ((appPackage, uuid) # commits) =
     await (commitPackage accountId appId deploymentId appPackage uuid) (\<lambda>committed.
       await (commitPackages accountId appId deploymentId commits) (\<lambda>others.
         resolve (committed # others)))"

definition deploymentPackages :: "string \<Rightarrow> store \<Rightarrow> packageRow list" where
  "deploymentPackages deploymentId s =
     filter (\<lambda>p. pkg_deploymentId p = deploymentId) (packages s)"

definition labelsFrom :: "nat \<Rightarrow> nat \<Rightarrow> string option list" where
  "labelsFrom i n = map (\<lambda>k. Some (''v'' @ numberToString k)) [i..<i + n]"

definition clearRollout :: "packageRow option \<Rightarrow> packageRow \<Rightarrow> packageRow" where
  "clearRollout latest p =
     (case latest of
        None \<Rightarrow> p
      | Some l \<Rightarrow> if pkg_id p = pkg_id l then p\<lparr>rollout := None\<rparr> else p)"

definition stagedOnlyLast :: "string \<Rightarrow> store \<Rightarrow> bool" where
  "stagedOnlyLast deploymentId s =
     (sorted_wrt (<) (map uploadTime (deploymentPackages deploymentId s)) \<and>
      (\<forall>p \<in> set (butlast (deploymentPackages deploymentId s)). rollout p = None))"

subsection \<open>Stored maps without the transient annotation\<close>

text \<open>No entry of the map, and no entry of any stored map, has the property \<^verbatim>\<open>isCurrentAccount\<close>.\<close>

definition withoutAnnotation :: "collaboratorMap option \<Rightarrow> bool" where
  "withoutAnnotation list =
     (case list of None \<Rightarrow> True | Some m \<Rightarrow> (\<forall>e \<in> set m. isCurrentAccount (snd e) = None))"

definition storedWithoutAnnotation :: "store \<Rightarrow> bool" where
  "storedWithoutAnnotation s = (\<forall>row \<in> set (apps s). withoutAnnotation (collaborators row))"

section \<open>Example stores\<close>

text \<open>
  A store with three access keys: the first has no mapping to an account, the two others
  have one each.
\<close>

definition keyStore :: store where
  "keyStore =
     \<lparr>accounts = [], apps = [], account_to_apps_map = [], deployments = [], packages = [],
      access_keys =
        [\<lparr>key_id = ''k0'', key_name = ''orphan''\<rparr>, \<lparr>key_id = ''k1'', key_name = ''ci-key''\<rparr>,
         \<lparr>key_id = ''k2'', key_name = ''build-key''\<rparr>],
      access_key_to_account_map =
        [\<lparr>map_accessKeyId = ''k2'', map_accountId = ''acc-2'', map_expires = Some 1000\<rparr>,
         \<lparr>map_accessKeyId = ''k1'', map_accountId = ''acc-1'', map_expires = Some 2000\<rparr>],
      queries = 0, objectPrototype = []\<rparr>"

text \<open>A possible \<^verbatim>\<open>isPrototypePollutionKey\<close>.\<close>

definition unsafeKey :: "string \<Rightarrow> bool" where
  "unsafeKey k = (k \<in> set [''__proto__'', ''constructor'', ''prototype''])"

text \<open>
  Three accounts; an app owned by the first and shared with the second, with its two
  visibility links and one deployment.
\<close>

definition sharedStore :: store where
  "sharedStore =
     \<lparr>accounts =
        [\<lparr>acc_id = ''1'', acc_name = ''A'', acc_email = ''a@x'', gitHubId = ''''\<rparr>,
         \<lparr>acc_id = ''2'', acc_name = ''B'', acc_email = ''b@x'', gitHubId = ''''\<rparr>,
         \<lparr>acc_id = ''3'', acc_name = ''C'', acc_email = ''c@x'', gitHubId = ''''\<rparr>],
      apps =
        [\<lparr>app_id = ''p'', app_name = ''App'',
          collaborators = Some
            [(''a@x'', \<lparr>cp_accountId = ''1'', permission = Owner, isCurrentAccount = None\<rparr>),
             (''b@x'', \<lparr>cp_accountId = ''2'', permission = Collaborator, isCurrentAccount = None\<rparr>)]\<rparr>],
      account_to_apps_map = [(''1'', ''p''), (''2'', ''p'')],
      deployments = [\<lparr>dep_id = ''d'', dep_name = ''Production'', dep_appId = ''p'', dep_key = ''dk''\<rparr>],
      packages = [], access_keys = [], access_key_to_account_map = [], queries = 0,
      objectPrototype = []\<rparr>"

text \<open>
  The shared store after the owner has transferred the app to the second account:
  \<^verbatim>\<open>transferApp('1', 'p', 'b@x')\<close>.
\<close>

definition transferredStore :: store where
  "transferredStore = snd (transferApp unsafeKey asciiLowerCase ''1'' ''p'' ''b@x'' sharedStore)"


text \<open>
  The shared app as \<open>getApp\<close> returns it to the first account, and the same app with an
  \<^verbatim>\<open>isCurrentAccount: false\<close> on the owner's entry.
\<close>

definition annotatedApp :: app where
  "annotatedApp =
     \<lparr>app_id = ''p'', app_name = ''App'',
      collaborators = Some
        [(''a@x'', \<lparr>cp_accountId = ''1'', permission = Owner, isCurrentAccount = Some True\<rparr>),
         (''b@x'', \<lparr>cp_accountId = ''2'', permission = Collaborator, isCurrentAccount = None\<rparr>)]\<rparr>"

definition flaggedApp :: app where
  "flaggedApp =
     \<lparr>app_id = ''p'', app_name = ''App'',
      collaborators = Some
        [(''a@x'', \<lparr>cp_accountId = ''1'', permission = Owner, isCurrentAccount = Some False\<rparr>)]\<rparr>"

text \<open>
  The empty store; the store in which \<open>addAccount\<close> has registered two accounts; a
  sequence that creates an app, shares it, transfers it and lets the former owner leave; and
  an account whose email is \<^verbatim>\<open>__proto__\<close>.
\<close>

definition emptyStore :: store where
  "emptyStore =
     \<lparr>accounts = [], apps = [], account_to_apps_map = [], deployments = [], packages = [],
      access_keys = [], access_key_to_account_map = [], queries = 0, objectPrototype = []\<rparr>"

definition registeredStore :: store where
  "registeredStore =
     snd (addAccount asciiLowerCase
            \<lparr>acc_id = '''', acc_name = ''B'', acc_email = ''b@x'', gitHubId = ''''\<rparr> ''2''
       (snd (addAccount asciiLowerCase
               \<lparr>acc_id = '''', acc_name = ''A'', acc_email = ''A@x'', gitHubId = ''''\<rparr> ''1''
               emptyStore)))"

definition sharingOperations :: "operation list" where
  "sharingOperations =
     [AddApp ''1'' \<lparr>app_id = '''', app_name = ''App'', collaborators = None\<rparr> ''p'',
      AddCollaborator ''1'' ''p'' ''b@x'',
      TransferApp ''1'' ''p'' ''B@x'',
      RemoveCollaborator ''1'' ''p'' ''a@x'']"

definition protoAccount :: account where
  "protoAccount = \<lparr>acc_id = '''', acc_name = ''P'', acc_email = ''__proto__'', gitHubId = ''''\<rparr>"

text \<open>
  Packages for the deployment of the shared app: three commits whose upload times decrease,
  and three whose upload times increase.
\<close>

definition examplePackage :: "int \<Rightarrow> int option \<Rightarrow> package" where
  "examplePackage time staged =
     \<lparr>description = None, isDisabled = None, isMandatory = None, rollout = staged,
      appVersion = ''1.0'', packageHash = ''h'', blobUrl = None, pkg_size = 1,
      manifestBlobUrl = None, releaseMethod = None, uploadTime = time, label = None,
      originalLabel = None, originalDeployment = None\<rparr>"

definition backdatedCommits :: "(package \<times> string) list" where
  "backdatedCommits =
     [(examplePackage 300 (Some 50), ''k1''), (examplePackage 200 (Some 30), ''k2''),
      (examplePackage 100 (Some 20), ''k3'')]"

definition stagedCommits :: "(package \<times> string) list" where
  "stagedCommits =
     [(examplePackage 100 (Some 50), ''k1''), (examplePackage 200 None, ''k2''),
      (examplePackage 300 (Some 20), ''k3'')]"

section \<open>Properties\<close>

lemmas promise_defs = await_def resolve_def reject_def poolQuery_def selectRows_def notAwaited_def

subsection \<open>What the basic reads return\<close>

lemma getAccount_run:
  "getAccount accountId s =
     ((case find (\<lambda>a. acc_id a = accountId) (accounts s) of
         None \<Rightarrow> Inl (StorageError NotFound) | Some a \<Rightarrow> Inr a),
      s\<lparr>queries := Suc (queries s)\<rparr>)"
  by (simp add: getAccount_def promise_defs split: option.splits)

lemma getAccountByEmail_run:
  "getAccountByEmail email s =
     ((case find (\<lambda>a. acc_email a = email) (accounts s) of
         None \<Rightarrow> Inl (StorageError NotFound) | Some a \<Rightarrow> Inr a),
      s\<lparr>queries := Suc (queries s)\<rparr>)"
  by (simp add: getAccountByEmail_def promise_defs split: option.splits)

lemma getApp_run:
  "getApp accountId appId s =
     (case find (\<lambda>a. acc_id a = accountId) (accounts s) of
        None \<Rightarrow> (Inl (StorageError NotFound), s\<lparr>queries := Suc (queries s)\<rparr>)
      | Some account \<Rightarrow>
          ((case find (\<lambda>a. app_id a = appId) (apps s) of
              None \<Rightarrow> Inl (StorageError NotFound)
            | Some app \<Rightarrow> Inr (addIsCurrentAccountProperty app (acc_id account))),
           s\<lparr>queries := Suc (Suc (queries s))\<rparr>))"
  by (simp add: getApp_def getAccount_run await_def resolve_def reject_def poolQuery_def selectRows_def
      split: option.splits)

lemma getAppAccountId_run:
  "getAppAccountId appId s =
     ((case find (\<lambda>l. snd l = appId) (account_to_apps_map s) of
         None \<Rightarrow> Inl TypeError | Some l \<Rightarrow> Inr (fst l)),
      s\<lparr>queries := Suc (queries s)\<rparr>)"
  by (simp add: getAppAccountId_def promise_defs split: option.splits)

subsection \<open>Deployment keys\<close>

text \<open>
  Claim C3. \<open>getDeploymentInfo\<close> with the key of a stored deployment: the body reads
  \<^verbatim>\<open>deployment.package.appId\<close>, the row has no \<^verbatim>\<open>package\<close>, and the promise is never
  settled, so no pair of app id and deployment id comes back. With a key that no deployment
  has the promise is rejected with \<open>NotFound\<close>.
\<close>

theorem getDeploymentInfo_existing_key_pending:
  "fst (getDeploymentInfo ''dk'' sharedStore) = None
   \<and> fst (getDeploymentInfo ''unknown'' sharedStore) = Some (Inl (StorageError NotFound))"
  by (simp add: getDeploymentInfo_def deployment_package_def sharedStore_def promise_defs)

lemma getDeploymentInfo_outcomes:
  "fst (getDeploymentInfo deploymentKey s) =
     (case find (\<lambda>d. dep_key d = deploymentKey) (deployments s) of
        None \<Rightarrow> Some (Inl (StorageError NotFound))
      | Some deployment \<Rightarrow> None)"
  by (simp add: getDeploymentInfo_def deployment_package_def promise_defs split: option.splits)

subsection \<open>Removing an app\<close>

lemma removeApp_first_link:
  "fst (getAppAccountId appId s) =
     (case find (\<lambda>l. snd l = appId) (account_to_apps_map s) of
        None \<Rightarrow> Inl TypeError | Some l \<Rightarrow> Inr (fst l))
   \<and> (fst (getAppAccountId appId s) = Inr accountId \<longrightarrow>
        fst (removeApp accountId appId s) = Inr () \<and>
        apps (snd (removeApp accountId appId s)) = filter (\<lambda>a. app_id a \<noteq> appId) (apps s) \<and>
        deployments (snd (removeApp accountId appId s)) =
          filter (\<lambda>d. dep_appId d \<noteq> appId) (deployments s))
   \<and> (\<forall>owner. fst (getAppAccountId appId s) = Inr owner \<and> owner \<noteq> accountId \<longrightarrow>
        fst (removeApp accountId appId s) = Inl (JsError ''Wrong accountId''))
   \<and> (fst (getAppAccountId appId s) \<noteq> Inr accountId \<longrightarrow>
        (\<exists>e. fst (removeApp accountId appId s) = Inl e \<and> (\<forall>code. e \<noteq> StorageError code)) \<and>
        sameRows s (snd (removeApp accountId appId s)))"
  by (auto simp: removeApp_def getAppAccountId_run await_def reject_def poolQuery_def deleteApp_def
      sameRows_def Let_def split: option.splits)

text \<open>
  Claim C8. The account that \<open>removeApp\<close> compares with the caller is the account of the
  first visibility link of the app (\<open>getAppAccountId\<close>), and collaborators have links as
  well. After the owner of the shared app has transferred it to the second account, the map
  names the second account as Owner and the first as Collaborator, and the first link is
  still the first account's: \<open>removeApp\<close> by the Owner is rejected with
  \<^verbatim>\<open>Wrong accountId\<close> and deletes nothing, and \<open>removeApp\<close> by the Collaborator deletes the
  app.
\<close>

theorem removeApp_after_transfer_wrong_account:
  "fst (transferApp unsafeKey asciiLowerCase ''1'' ''p'' ''b@x'' sharedStore) = Inr ()
   \<and> map collaborators (apps transferredStore) =
       [Some [(''a@x'', \<lparr>cp_accountId = ''1'', permission = Collaborator, isCurrentAccount = None\<rparr>),
              (''b@x'', \<lparr>cp_accountId = ''2'', permission = Owner, isCurrentAccount = None\<rparr>)]]
   \<and> account_to_apps_map transferredStore = [(''1'', ''p''), (''2'', ''p'')]
   \<and> fst (getAppAccountId ''p'' transferredStore) = Inr ''1''
   \<and> fst (removeApp ''2'' ''p'' transferredStore) = Inl (JsError ''Wrong accountId'')
   \<and> apps (snd (removeApp ''2'' ''p'' transferredStore)) = apps transferredStore
   \<and> fst (removeApp ''1'' ''p'' transferredStore) = Inr ()
   \<and> apps (snd (removeApp ''1'' ''p'' transferredStore)) = []"
  by code_simp

subsection \<open>Reading and assigning permissions\<close>

lemma withPrototype_run [simp]: "withPrototype k s = k (objectPrototype s) s"
  by (simp add: withPrototype_def)

lemma throwing_run:
  "throwing step s =
     (case step (objectPrototype s) of
        None \<Rightarrow> (Inl TypeError, s)
      | Some (v, assigned) \<Rightarrow> (Inr v, s\<lparr>objectPrototype := assigned\<rparr>))"
  by (simp add: throwing_def)

lemma map_of_forEachEntry:
  "map_of (forEachEntry g m) k = map_option g (map_of m k)"
  by (induction m) (auto simp: forEachEntry_def)

lemma permission_setIsCurrentAccount [simp]:
  "permission (setIsCurrentAccount acc p) = permission p"
  by (simp add: setIsCurrentAccount_def)

lemma permission_deleteIsCurrentAccount [simp]:
  "permission (deleteIsCurrentAccount p) = permission p"
  by (simp add: deleteIsCurrentAccount_def)

lemma getMember_forEachEntry:
  "getMember assigned (forEachEntry f m) email =
     (case getMember assigned m email of Entry p \<Rightarrow> Entry (f p) | x \<Rightarrow> x)"
  by (simp add: getMember_def map_of_forEachEntry split: option.splits)

lemma memberPermission_forEachEntry:
  assumes "\<And>p. permission (f p) = permission p"
  shows "memberPermission assigned (getMember assigned (forEachEntry f m) email) =
         memberPermission assigned (getMember assigned m email)"
  using assms by (simp add: getMember_forEachEntry memberPermission_def split: member.splits)

lemma isOwner_forEachEntry:
  assumes "\<And>p. permission (f p) = permission p"
  shows "isOwner assigned (Some (forEachEntry f m)) email = isOwner assigned (Some m) email"
  using assms by (simp add: isOwner_def memberPermission_forEachEntry)

lemma isCollaborator_forEachEntry:
  assumes "\<And>p. permission (f p) = permission p"
  shows "isCollaborator assigned (Some (forEachEntry f m)) email =
         isCollaborator assigned (Some m) email"
  using assms by (simp add: isCollaborator_def memberPermission_forEachEntry)

lemma isOwner_None [simp]: "isOwner assigned None email = False"
  by (simp add: isOwner_def)

lemma isCollaborator_None [simp]: "isCollaborator assigned None email = False"
  by (simp add: isCollaborator_def)

lemma isOwner_map_option_forEachEntry:
  assumes "\<And>p. permission (f p) = permission p"
  shows "isOwner assigned (map_option (forEachEntry f) list) email = isOwner assigned list email"
  using assms by (cases list) (simp_all add: isOwner_forEachEntry)

lemma isCollaborator_map_option_forEachEntry:
  assumes "\<And>p. permission (f p) = permission p"
  shows "isCollaborator assigned (map_option (forEachEntry f) list) email =
         isCollaborator assigned list email"
  using assms by (cases list) (simp_all add: isCollaborator_forEachEntry)

lemmas permission_reads [simp] =
  isOwner_forEachEntry [of "setIsCurrentAccount acc", OF permission_setIsCurrentAccount]
  isCollaborator_forEachEntry [of "setIsCurrentAccount acc", OF permission_setIsCurrentAccount]
  isOwner_map_option_forEachEntry [of "setIsCurrentAccount acc", OF permission_setIsCurrentAccount]
  isCollaborator_map_option_forEachEntry [of "setIsCurrentAccount acc", OF permission_setIsCurrentAccount]
  isOwner_forEachEntry [of deleteIsCurrentAccount, OF permission_deleteIsCurrentAccount]
  isCollaborator_forEachEntry [of deleteIsCurrentAccount, OF permission_deleteIsCurrentAccount]
  for acc

lemma app_fields_addIsCurrentAccountProperty [simp]:
  "app_id (addIsCurrentAccountProperty app acc) = app_id app"
  "app_name (addIsCurrentAccountProperty app acc) = app_name app"
  "collaborators (addIsCurrentAccountProperty app acc) =
     map_option (forEachEntry (setIsCurrentAccount acc)) (collaborators app)"
  by (simp_all add: addIsCurrentAccountProperty_def)

lemma app_fields_removeIsCurrentAccountProperty [simp]:
  "app_id (removeIsCurrentAccountProperty app) = app_id app"
  "app_name (removeIsCurrentAccountProperty app) = app_name app"
  "collaborators (removeIsCurrentAccountProperty app) =
     map_option (forEachEntry deleteIsCurrentAccount) (collaborators app)"
  by (simp_all add: removeIsCurrentAccountProperty_def)

text \<open>
  Without assigned permissions, \<open>isOwner\<close> and \<open>isCollaborator\<close> hold of the keys of the
  own entries with that permission and of no other name.
\<close>

lemma isOwner_unassigned:
  "isOwner [] (Some m) email \<longleftrightarrow> (\<exists>p. map_of m email = Some p \<and> permission p = Owner)"
  by (simp add: isOwner_def getMember_def memberPermission_def split: option.splits)

lemma isCollaborator_unassigned:
  "isCollaborator [] (Some m) email \<longleftrightarrow>
     (\<exists>p. map_of m email = Some p \<and> permission p = Collaborator)"
  by (simp add: isCollaborator_def getMember_def memberPermission_def split: option.splits)

lemma isOwner_entry:
  "map_of m email = Some p \<Longrightarrow> isOwner assigned (Some m) email \<longleftrightarrow> permission p = Owner"
  by (simp add: isOwner_def getMember_def memberPermission_def)

lemma isCollaborator_entry:
  "map_of m email = Some p \<Longrightarrow>
     isCollaborator assigned (Some m) email \<longleftrightarrow> permission p = Collaborator"
  by (simp add: isCollaborator_def getMember_def memberPermission_def)



lemma setPermission_cases:
  assumes "setPermission assigned list email perm = Some (m', assigned')"
  obtains (entry) m p where
      "list = Some m" "map_of m email = Some p"
      "m' = AList.update email (p\<lparr>permission := perm\<rparr>) m" "assigned' = assigned"
  | (inherited)
      "list = Some m'" "map_of m' email = None" "email \<in> set inheritedNames"
      "assigned' = AList.update email perm assigned"
  using assms
  by (auto simp: setPermission_def getMember_def split: option.splits if_splits)

subsection \<open>Transfer by an account without entry\<close>




subsection \<open>Removing a collaborator\<close>

lemma find_app_id: "find (\<lambda>a. app_id a = appId) xs = Some app \<Longrightarrow> app_id app = appId"
  by (auto simp: find_Some_iff)

lemma updateApp_run:
  "updateApp accountId app ensureIsOwner s =
     (case find (\<lambda>a. acc_id a = accountId) (accounts s) of
        None \<Rightarrow> (Inl (StorageError NotFound), s\<lparr>queries := Suc (queries s)\<rparr>)
      | Some account \<Rightarrow>
          (case find (\<lambda>a. app_id a = app_id app) (apps s) of
             None \<Rightarrow> (Inl (StorageError NotFound), s\<lparr>queries := Suc (Suc (queries s))\<rparr>)
           | Some row \<Rightarrow>
               (Inr (),
                s\<lparr>queries := Suc (Suc (Suc (queries s))),
                  apps := map (\<lambda>row. if app_id row = app_id app
                                then row\<lparr>app_name := app_name app,
                                         collaborators := collaborators (removeIsCurrentAccountProperty app)\<rparr>
                                else row) (apps s)\<rparr>)))"
  by (simp add: updateApp_def getApp_run await_def poolQuery_def updateAppRow_def
      split: option.splits)

lemma removeAppPointer_run:
  "removeAppPointer accountId appId s =
     (Inr (), s\<lparr>queries := Suc (queries s),
                account_to_apps_map := filter (\<lambda>l. l \<noteq> (accountId, appId)) (account_to_apps_map s)\<rparr>)"
  by (simp add: removeAppPointer_def poolQuery_def)

lemma isCollaborator_Some: "isCollaborator assigned list email \<Longrightarrow> \<exists>m. list = Some m"
  by (cases list) simp_all

lemma removeCollaborator_cases:
  assumes run: "removeCollaborator toLowerCase accountId appId email s = (r, s')"
  obtains (rejected) "r = Inl (StorageError NotFound)" "sameRows s s'"
      "objectPrototype s' = objectPrototype s"
  | (removed) account app target m where
      "r = Inr ()"
      "find (\<lambda>a. acc_id a = accountId) (accounts s) = Some account"
      "find (\<lambda>a. app_id a = appId) (apps s) = Some app"
      "find (\<lambda>a. acc_email a = toLowerCase email) (accounts s) = Some target"
      "acc_id target \<noteq> []"
      "isCollaborator (objectPrototype s) (collaborators app) email"
      "collaborators app = Some m"
      "account_to_apps_map s' = filter (\<lambda>l. l \<noteq> (acc_id target, appId)) (account_to_apps_map s)"
      "apps s' = map (\<lambda>row. if app_id row = appId
                       then row\<lparr>app_name := app_name app,
                                collaborators := Some (forEachEntry deleteIsCurrentAccount
                                  (AList.delete email
                                     (forEachEntry (setIsCurrentAccount (acc_id account)) m)))\<rparr>
                       else row) (apps s)"
      "accounts s' = accounts s" "deployments s' = deployments s" "packages s' = packages s"
      "objectPrototype s' = objectPrototype s"
proof (cases "find (\<lambda>a. acc_id a = accountId) (accounts s)")
  case None
  with run have "r = Inl (StorageError NotFound) \<and> sameRows s s' \<and>
        objectPrototype s' = objectPrototype s"
    by (auto simp: removeCollaborator_def await_def getApp_run sameRows_def)
  then show ?thesis using rejected by blast
next
  case acc: (Some account)
  show ?thesis
  proof (cases "find (\<lambda>a. app_id a = appId) (apps s)")
    case None
    with run acc have "r = Inl (StorageError NotFound) \<and> sameRows s s' \<and>
        objectPrototype s' = objectPrototype s"
      by (auto simp: removeCollaborator_def await_def getApp_run sameRows_def)
    then show ?thesis using rejected by blast
  next
    case app: (Some app)
    note idapp = find_app_id [OF app]
    show ?thesis
    proof (cases "isOwner (objectPrototype s) (collaborators app) email")
      case True
      with run acc app have "r = Inl (StorageError NotFound) \<and> sameRows s s' \<and>
        objectPrototype s' = objectPrototype s"
        by (auto simp: removeCollaborator_def await_def reject_def getApp_run sameRows_def)
      then show ?thesis using rejected by blast
    next
      case notOwner: False
      show ?thesis
      proof (cases "find (\<lambda>a. acc_email a = toLowerCase email) (accounts s)")
        case None
        with run acc app notOwner have "r = Inl (StorageError NotFound) \<and> sameRows s s' \<and>
        objectPrototype s' = objectPrototype s"
          by (auto simp: removeCollaborator_def await_def reject_def getApp_run
              getAccountByEmail_run sameRows_def)
        then show ?thesis using rejected by blast
      next
        case tgt: (Some target)
        show ?thesis
        proof (cases "\<not> isCollaborator (objectPrototype s) (collaborators app) email \<or> acc_id target = []")
          case True
          with run acc app notOwner tgt have "r = Inl (StorageError NotFound) \<and> sameRows s s' \<and>
        objectPrototype s' = objectPrototype s"
            by (auto simp: removeCollaborator_def await_def reject_def getApp_run
                getAccountByEmail_run sameRows_def Let_def)
          then show ?thesis using rejected by blast
        next
          case False
          then have col: "isCollaborator (objectPrototype s) (collaborators app) email"
            and nonempty: "acc_id target \<noteq> []"
            by auto
          from col obtain m where m: "collaborators app = Some m"
            by (auto dest: isCollaborator_Some)
          from run acc app notOwner tgt col nonempty m idapp
          have res: "r = Inr ()"
            "account_to_apps_map s' = filter (\<lambda>l. l \<noteq> (acc_id target, appId)) (account_to_apps_map s)"
            "apps s' = map (\<lambda>row. if app_id row = appId
                          then row\<lparr>app_name := app_name app,
                                   collaborators := Some (forEachEntry deleteIsCurrentAccount
                                     (AList.delete email
                                        (forEachEntry (setIsCurrentAccount (acc_id account)) m)))\<rparr>
                          else row) (apps s)"
            "accounts s' = accounts s" "deployments s' = deployments s" "packages s' = packages s"
            "objectPrototype s' = objectPrototype s"
            by (auto simp: removeCollaborator_def await_def reject_def getApp_run
                getAccountByEmail_run Let_def removeAppPointer_run updateApp_run)
          show ?thesis
            by (rule removed [OF res(1) acc app tgt nonempty col m res(2-7)])
        qed
      qed
    qed
  qed
qed

lemma isCollaborator_not_isOwner:
  "isCollaborator assigned list email \<Longrightarrow> \<not> isOwner assigned list email"
  by (auto simp: isCollaborator_def isOwner_def split: option.splits)



lemma ball_set_map: "(\<forall>y \<in> set (map f xs). P y) \<longleftrightarrow> (\<forall>x \<in> set xs. P (f x))"
  by (induction xs) simp_all



subsection \<open>What the collaborator operations do to the store\<close>

lemma addAppPointer_run:
  "addAppPointer accountId appId s =
     (if (accountId, appId) \<in> set (account_to_apps_map s)
      then (Inl QueryError, s\<lparr>queries := Suc (queries s)\<rparr>)
      else (Inr (), s\<lparr>queries := Suc (queries s),
                       account_to_apps_map := account_to_apps_map s @ [(accountId, appId)]\<rparr>))"
  by (simp add: addAppPointer_def poolQuery_def insertAccountToApp_def)

lemma notAwaited_addAppPointer_run:
  "notAwaited (addAppPointer accountId appId) s =
     (Inr (), s\<lparr>queries := Suc (queries s),
                account_to_apps_map :=
                  (if (accountId, appId) \<in> set (account_to_apps_map s) then account_to_apps_map s
                   else account_to_apps_map s @ [(accountId, appId)])\<rparr>)"
  by (simp add: notAwaited_def addAppPointer_run)

lemma transferApp_cases:
  assumes run: "transferApp isPrototypePollutionKey toLowerCase accountId appId email s = (r, s')"
  obtains (rejected) e where "r = Inl e" "sameRows s s'"
  | (transferred) account app target m demoted assigned final where
      "r = Inr ()"
      "find (\<lambda>a. acc_id a = accountId) (accounts s) = Some account"
      "find (\<lambda>a. app_id a = appId) (apps s) = Some app"
      "find (\<lambda>a. acc_email a = toLowerCase email) (accounts s) = Some target"
      "collaborators app = Some m"
      "\<not> isOwner (objectPrototype s) (Some m) (acc_email target)"
      "setPermission (objectPrototype s)
         (Some (forEachEntry (setIsCurrentAccount (acc_id account)) m))
         (acc_email account) Collaborator = Some (demoted, assigned)"
      "(isCollaborator assigned (Some demoted) (acc_email target) \<and>
        setPermission assigned (Some demoted) (acc_email target) Owner =
          Some (final, objectPrototype s') \<and>
        account_to_apps_map s' = account_to_apps_map s) \<or>
       (\<not> isCollaborator assigned (Some demoted) (acc_email target) \<and>
        final = assignEntry (acc_email target)
          \<lparr>cp_accountId = acc_id target, permission = Owner, isCurrentAccount = None\<rparr> demoted \<and>
        objectPrototype s' = assigned \<and>
        account_to_apps_map s' =
          (if (acc_id target, appId) \<in> set (account_to_apps_map s) then account_to_apps_map s
           else account_to_apps_map s @ [(acc_id target, appId)]))"
      "apps s' = map (\<lambda>row. if app_id row = appId
                       then row\<lparr>app_name := app_name app,
                                collaborators := Some (forEachEntry deleteIsCurrentAccount final)\<rparr>
                       else row) (apps s)"
      "accounts s' = accounts s" "deployments s' = deployments s" "packages s' = packages s"
proof (cases "isPrototypePollutionKey email")
  case True
  with run have "r = Inl (StorageError Invalid) \<and> sameRows s s'"
    by (auto simp: transferApp_def reject_def sameRows_def)
  then show ?thesis using rejected by blast
next
  case ok: False
  show ?thesis
  proof (cases "find (\<lambda>a. acc_id a = accountId) (accounts s)")
    case None
    with run ok have "r = Inl (StorageError NotFound) \<and> sameRows s s'"
      by (auto simp: transferApp_def await_def getApp_run sameRows_def)
    then show ?thesis using rejected by blast
  next
    case acc: (Some account)
    show ?thesis
    proof (cases "find (\<lambda>a. app_id a = appId) (apps s)")
      case None
      with run ok acc have "r = Inl (StorageError NotFound) \<and> sameRows s s'"
        by (auto simp: transferApp_def await_def getApp_run sameRows_def)
      then show ?thesis using rejected by blast
    next
      case app: (Some app)
      note idapp = find_app_id [OF app]
      show ?thesis
      proof (cases "find (\<lambda>a. acc_email a = toLowerCase email) (accounts s)")
        case None
        with run ok acc app have "r = Inl (StorageError NotFound) \<and> sameRows s s'"
          by (auto simp: transferApp_def await_def reject_def getApp_run getAccount_run
              getAccountByEmail_run sameRows_def)
        then show ?thesis using rejected by blast
      next
        case tgt: (Some target)
        show ?thesis
        proof (cases "isOwner (objectPrototype s) (collaborators app) (acc_email target)")
          case True
          with run ok acc app tgt have "r = Inl (StorageError AlreadyExists) \<and> sameRows s s'"
            by (auto simp: transferApp_def await_def reject_def getApp_run getAccount_run
                getAccountByEmail_run sameRows_def Let_def)
          then show ?thesis using rejected by blast
        next
          case notOwner: False
          let ?list = "map_option (forEachEntry (setIsCurrentAccount (acc_id account)))
              (collaborators app)"
          show ?thesis
          proof (cases "setPermission (objectPrototype s) ?list (acc_email account) Collaborator")
            case None
            with run ok acc app tgt notOwner have "r = Inl TypeError \<and> sameRows s s'"
              by (auto simp: transferApp_def await_def reject_def getApp_run getAccount_run
                  getAccountByEmail_run sameRows_def Let_def throwing_run)
            then show ?thesis using rejected by blast
          next
            case (Some pair)
            then obtain demoted assigned where
              dem: "setPermission (objectPrototype s) ?list (acc_email account) Collaborator =
                Some (demoted, assigned)"
              by (cases pair) simp
            then obtain m where m: "collaborators app = Some m"
              by (cases "collaborators app") (simp_all add: setPermission_def)
            from notOwner m have notOwner': "\<not> isOwner (objectPrototype s) (Some m) (acc_email target)"
              by simp
            from dem m have dem': "setPermission (objectPrototype s)
                (Some (forEachEntry (setIsCurrentAccount (acc_id account)) m))
                (acc_email account) Collaborator = Some (demoted, assigned)"
              by simp
            show ?thesis
            proof (cases "isCollaborator assigned (Some demoted) (acc_email target)")
              case col: True
              show ?thesis
              proof (cases "setPermission assigned (Some demoted) (acc_email target) Owner")
                case None
                with run ok acc app tgt notOwner dem col have "r = Inl TypeError \<and> sameRows s s'"
                  by (auto simp: transferApp_def await_def reject_def getApp_run getAccount_run
                      getAccountByEmail_run sameRows_def Let_def throwing_run)
                then show ?thesis using rejected by blast
              next
                case (Some pair')
                then obtain promoted assigned' where
                  pro: "setPermission assigned (Some demoted) (acc_email target) Owner =
                    Some (promoted, assigned')"
                  by (cases pair') simp
                from run ok acc app tgt notOwner dem col pro idapp
                have res: "r = Inr ()"
                  "apps s' = map (\<lambda>row. if app_id row = appId
                       then row\<lparr>app_name := app_name app,
                                collaborators := Some (forEachEntry deleteIsCurrentAccount promoted)\<rparr>
                       else row) (apps s)"
                  "account_to_apps_map s' = account_to_apps_map s"
                  "objectPrototype s' = assigned'"
                  "accounts s' = accounts s" "deployments s' = deployments s" "packages s' = packages s"
                  by (auto simp: transferApp_def await_def reject_def getApp_run getAccount_run
                      getAccountByEmail_run Let_def updateApp_run throwing_run)
                show ?thesis
                proof (rule transferred [where final = promoted, OF res(1) acc app tgt m notOwner' dem'])
                  show "(isCollaborator assigned (Some demoted) (acc_email target) \<and>
                      setPermission assigned (Some demoted) (acc_email target) Owner =
                        Some (promoted, objectPrototype s') \<and>
                      account_to_apps_map s' = account_to_apps_map s) \<or>
                     (\<not> isCollaborator assigned (Some demoted) (acc_email target) \<and>
                      promoted = assignEntry (acc_email target)
                        \<lparr>cp_accountId = acc_id target, permission = Owner, isCurrentAccount = None\<rparr>
                        demoted \<and>
                      objectPrototype s' = assigned \<and>
                      account_to_apps_map s' =
                        (if (acc_id target, appId) \<in> set (account_to_apps_map s)
                         then account_to_apps_map s
                         else account_to_apps_map s @ [(acc_id target, appId)]))"
                    using col pro res(3,4) by simp
                qed (rule res(2) res(5) res(6) res(7))+
              qed
            next
              case nocol: False
              let ?v = "\<lparr>cp_accountId = acc_id target, permission = Owner, isCurrentAccount = None\<rparr>"
              from run ok acc app tgt notOwner dem nocol idapp
              have res: "r = Inr ()"
                "apps s' = map (\<lambda>row. if app_id row = appId
                       then row\<lparr>app_name := app_name app,
                                collaborators := Some (forEachEntry deleteIsCurrentAccount
                                  (assignEntry (acc_email target) ?v demoted))\<rparr>
                       else row) (apps s)"
                "account_to_apps_map s' =
                   (if (acc_id target, appId) \<in> set (account_to_apps_map s) then account_to_apps_map s
                    else account_to_apps_map s @ [(acc_id target, appId)])"
                "objectPrototype s' = assigned"
                "accounts s' = accounts s" "deployments s' = deployments s" "packages s' = packages s"
                by (auto simp: transferApp_def await_def reject_def getApp_run getAccount_run
                    getAccountByEmail_run Let_def updateApp_run notAwaited_addAppPointer_run
                    throwing_run)
              show ?thesis
              proof (rule transferred [where final = "assignEntry (acc_email target) ?v demoted",
                    OF res(1) acc app tgt m notOwner' dem'])
                show "(isCollaborator assigned (Some demoted) (acc_email target) \<and>
                      setPermission assigned (Some demoted) (acc_email target) Owner =
                        Some (assignEntry (acc_email target) ?v demoted, objectPrototype s') \<and>
                      account_to_apps_map s' = account_to_apps_map s) \<or>
                     (\<not> isCollaborator assigned (Some demoted) (acc_email target) \<and>
                      assignEntry (acc_email target) ?v demoted = assignEntry (acc_email target)
                        \<lparr>cp_accountId = acc_id target, permission = Owner, isCurrentAccount = None\<rparr>
                        demoted \<and>
                      objectPrototype s' = assigned \<and>
                      account_to_apps_map s' =
                        (if (acc_id target, appId) \<in> set (account_to_apps_map s)
                         then account_to_apps_map s
                         else account_to_apps_map s @ [(acc_id target, appId)]))"
                  using nocol res(3,4) by simp
              qed (rule res(2) res(5) res(6) res(7))+
            qed
          qed
        qed
      qed
    qed
  qed
qed

lemma not_listed:
  assumes "\<not> isCollaborator assigned (Some m) email" and "\<not> isOwner assigned (Some m) email"
  shows "map_of m email = None"
proof (cases "map_of m email")
  case None
  then show ?thesis .
next
  case (Some p)
  with assms show ?thesis
    by (cases "permission p") (simp_all add: isCollaborator_entry isOwner_entry)
qed

lemma addCollaborator_cases:
  assumes run: "addCollaborator isPrototypePollutionKey toLowerCase accountId appId email s = (r, s')"
  obtains (rejected) e where "r = Inl e" "sameRows s s'" "objectPrototype s' = objectPrototype s"
  | (added) account app target m where
      "r = Inr ()"
      "find (\<lambda>a. acc_id a = accountId) (accounts s) = Some account"
      "find (\<lambda>a. app_id a = appId) (apps s) = Some app"
      "find (\<lambda>a. acc_email a = toLowerCase email) (accounts s) = Some target"
      "collaborators app = Some m"
      "map_of m email = None"
      "(acc_id target, appId) \<notin> set (account_to_apps_map s)"
      "apps s' = map (\<lambda>row. if app_id row = appId
                       then row\<lparr>app_name := app_name app,
                                collaborators := Some (forEachEntry deleteIsCurrentAccount
                                  (assignEntry (acc_email target)
                                    \<lparr>cp_accountId = acc_id target, permission = Collaborator,
                                     isCurrentAccount = None\<rparr>
                                    (forEachEntry (setIsCurrentAccount (acc_id account)) m)))\<rparr>
                       else row) (apps s)"
      "account_to_apps_map s' = account_to_apps_map s @ [(acc_id target, appId)]"
      "accounts s' = accounts s" "deployments s' = deployments s" "packages s' = packages s"
      "objectPrototype s' = objectPrototype s"
proof (cases "isPrototypePollutionKey email")
  case True
  with run have "r = Inl (StorageError Invalid) \<and> sameRows s s' \<and>
      objectPrototype s' = objectPrototype s"
    by (auto simp: addCollaborator_def reject_def sameRows_def)
  then show ?thesis using rejected by blast
next
  case ok: False
  show ?thesis
  proof (cases "find (\<lambda>a. acc_id a = accountId) (accounts s)")
    case None
    with run ok have "r = Inl (StorageError NotFound) \<and> sameRows s s' \<and>
        objectPrototype s' = objectPrototype s"
      by (auto simp: addCollaborator_def await_def getApp_run sameRows_def)
    then show ?thesis using rejected by blast
  next
    case acc: (Some account)
    show ?thesis
    proof (cases "find (\<lambda>a. app_id a = appId) (apps s)")
      case None
      with run ok acc have "r = Inl (StorageError NotFound) \<and> sameRows s s' \<and>
          objectPrototype s' = objectPrototype s"
        by (auto simp: addCollaborator_def await_def getApp_run sameRows_def)
      then show ?thesis using rejected by blast
    next
      case app: (Some app)
      note idapp = find_app_id [OF app]
      show ?thesis
      proof (cases "isCollaborator (objectPrototype s) (collaborators app) email \<or>
          isOwner (objectPrototype s) (collaborators app) email")
        case True
        with run ok acc app have "r = Inl (StorageError AlreadyExists) \<and> sameRows s s' \<and>
            objectPrototype s' = objectPrototype s"
          by (auto simp: addCollaborator_def await_def reject_def getApp_run sameRows_def)
        then show ?thesis using rejected by blast
      next
        case fresh: False
        show ?thesis
        proof (cases "find (\<lambda>a. acc_email a = toLowerCase email) (accounts s)")
          case None
          with run ok acc app fresh have "r = Inl (StorageError NotFound) \<and> sameRows s s' \<and>
              objectPrototype s' = objectPrototype s"
            by (auto simp: addCollaborator_def await_def reject_def getApp_run
                getAccountByEmail_run sameRows_def)
          then show ?thesis using rejected by blast
        next
          case tgt: (Some target)
          show ?thesis
          proof (cases "collaborators app")
            case None
            with run ok acc app fresh tgt have "r = Inl TypeError \<and> sameRows s s' \<and>
                objectPrototype s' = objectPrototype s"
              by (auto simp: addCollaborator_def await_def reject_def getApp_run
                  getAccountByEmail_run sameRows_def Let_def)
            then show ?thesis using rejected by blast
          next
            case m: (Some m)
            from fresh m have absent: "map_of m email = None"
              by (auto intro: not_listed)
            show ?thesis
            proof (cases "(acc_id target, appId) \<in> set (account_to_apps_map s)")
              case True
              with run ok acc app fresh tgt m idapp have "r = Inl QueryError \<and> sameRows s s' \<and>
                  objectPrototype s' = objectPrototype s"
                by (auto simp: addCollaborator_def await_def reject_def getApp_run
                    getAccountByEmail_run sameRows_def Let_def addAppPointer_run)
              then show ?thesis using rejected by blast
            next
              case nolink: False
              from run ok acc app fresh tgt m idapp nolink
              have res: "r = Inr ()"
                "apps s' = map (\<lambda>row. if app_id row = appId
                       then row\<lparr>app_name := app_name app,
                                collaborators := Some (forEachEntry deleteIsCurrentAccount
                                  (assignEntry (acc_email target)
                                    \<lparr>cp_accountId = acc_id target, permission = Collaborator,
                                     isCurrentAccount = None\<rparr>
                                    (forEachEntry (setIsCurrentAccount (acc_id account)) m)))\<rparr>
                       else row) (apps s)"
                "account_to_apps_map s' = account_to_apps_map s @ [(acc_id target, appId)]"
                "accounts s' = accounts s" "deployments s' = deployments s" "packages s' = packages s"
                "objectPrototype s' = objectPrototype s"
                by (auto simp: addCollaborator_def await_def reject_def getApp_run
                    getAccountByEmail_run Let_def addAppPointer_run updateApp_run)
              show ?thesis
                by (rule added [OF res(1) acc app tgt m absent nolink res(2-7)])
            qed
          qed
        qed
      qed
    qed
  qed
qed

lemma addApp_resolved:
  assumes run: "addApp accountId app uuid s = (Inr app', s')"
  obtains account where
    "find (\<lambda>a. acc_id a = accountId) (accounts s) = Some account"
    "uuid \<notin> app_id ` set (apps s)"
    "apps s' = apps s @ [\<lparr>app_id = uuid, app_name = app_name app,
        collaborators = Some (assignEntry (acc_email account)
          \<lparr>cp_accountId = accountId, permission = Owner, isCurrentAccount = None\<rparr> [])\<rparr>]"
    "account_to_apps_map s' = account_to_apps_map s @ [(acc_id account, uuid)]"
    "accounts s' = accounts s" "deployments s' = deployments s" "packages s' = packages s"
    "objectPrototype s' = objectPrototype s"
proof (cases "find (\<lambda>a. acc_id a = accountId) (accounts s)")
  case None
  with run show ?thesis
    by (simp add: addApp_def await_def getAccount_run)
next
  case acc: (Some account)
  show ?thesis
  proof (cases "uuid \<in> app_id ` set (apps s)")
    case True
    with run acc show ?thesis
      by (simp add: addApp_def await_def getAccount_run poolQuery_def insertApp_def Let_def)
  next
    case fresh: False
    show ?thesis
    proof (cases "(acc_id account, uuid) \<in> set (account_to_apps_map s)")
      case True
      with run acc fresh show ?thesis
        by (simp add: addApp_def await_def getAccount_run poolQuery_def insertApp_def Let_def
            insertAccountToApp_def)
    next
      case False
      with run acc fresh have res:
        "apps s' = apps s @ [\<lparr>app_id = uuid, app_name = app_name app,
          collaborators = Some (assignEntry (acc_email account)
            \<lparr>cp_accountId = accountId, permission = Owner, isCurrentAccount = None\<rparr> [])\<rparr>]"
        "account_to_apps_map s' = account_to_apps_map s @ [(acc_id account, uuid)]"
        "accounts s' = accounts s" "deployments s' = deployments s" "packages s' = packages s"
        "objectPrototype s' = objectPrototype s"
        by (auto simp: addApp_def await_def getAccount_run poolQuery_def insertApp_def Let_def
            insertAccountToApp_def resolve_def)
      show ?thesis by (rule that [OF acc fresh res])
    qed
  qed
qed

subsection \<open>Emails that already hold a permission\<close>

lemma addCollaborator_listed_email:
  assumes "\<not> isPrototypePollutionKey email"
    and "find (\<lambda>a. acc_id a = accountId) (accounts s) = Some account"
    and "find (\<lambda>a. app_id a = appId) (apps s) = Some app"
    and "isOwner (objectPrototype s) (collaborators app) email \<or>
         isCollaborator (objectPrototype s) (collaborators app) email"
  shows "fst (addCollaborator isPrototypePollutionKey toLowerCase accountId appId email s) =
           Inl (StorageError AlreadyExists)
    \<and> sameRows s (snd (addCollaborator isPrototypePollutionKey toLowerCase accountId appId email s))"
  using assms
  by (auto simp: addCollaborator_def await_def reject_def getApp_run sameRows_def)

lemma transferApp_to_owner:
  assumes "\<not> isPrototypePollutionKey email"
    and "find (\<lambda>a. acc_id a = accountId) (accounts s) = Some account"
    and "find (\<lambda>a. app_id a = appId) (apps s) = Some app"
    and "find (\<lambda>a. acc_email a = toLowerCase email) (accounts s) = Some target"
    and "isOwner (objectPrototype s) (collaborators app) (toLowerCase email)"
  shows "fst (transferApp isPrototypePollutionKey toLowerCase accountId appId email s) =
           Inl (StorageError AlreadyExists)
    \<and> sameRows s (snd (transferApp isPrototypePollutionKey toLowerCase accountId appId email s))"
proof -
  from assms(4) have "acc_email target = toLowerCase email"
    by (auto simp: find_Some_iff)
  with assms show ?thesis
    by (auto simp: transferApp_def await_def reject_def getApp_run getAccount_run
        getAccountByEmail_run sameRows_def Let_def)
qed

lemma lower_examples:
  "asciiLowerCase ''B@x'' = ''b@x''" "asciiLowerCase ''A@x'' = ''a@x''" "asciiLowerCase ''b@x'' = ''b@x''"
  by code_simp+

text \<open>
  Claim C5. The email \<^verbatim>\<open>B@x\<close> is another spelling of \<^verbatim>\<open>b@x\<close>, which is a Collaborator
  of the shared app (and \<^verbatim>\<open>A@x\<close> of the Owner's). \<open>addCollaborator\<close> looks the email up as
  it was passed, finds no entry, and only then resolves the account by the lower-case email:
  the call is rejected by the primary key of the visibility links, with a store error and
  not with \<open>AlreadyExists\<close>. With the stored spelling it rejects with \<open>AlreadyExists\<close>,
  and so does \<open>transferApp\<close> to the Owner in either spelling, which normalises the email
  before it looks it up.
\<close>

theorem addCollaborator_other_spelling:
  "asciiLowerCase ''B@x'' = ''b@x''
   \<and> isCollaborator (objectPrototype sharedStore) (collaborators (hd (apps sharedStore))) ''b@x''
   \<and> fst (addCollaborator unsafeKey asciiLowerCase ''1'' ''p'' ''b@x'' sharedStore) = Inl (StorageError AlreadyExists)
   \<and> fst (addCollaborator unsafeKey asciiLowerCase ''1'' ''p'' ''B@x'' sharedStore) = Inl QueryError
   \<and> fst (addCollaborator unsafeKey asciiLowerCase ''1'' ''p'' ''A@x'' sharedStore) = Inl QueryError
   \<and> fst (transferApp unsafeKey asciiLowerCase ''1'' ''p'' ''A@x'' sharedStore) = Inl (StorageError AlreadyExists)"
  by (simp add: addCollaborator_def transferApp_def await_def reject_def getApp_run getAccount_run
      getAccountByEmail_run addAppPointer_run Let_def sharedStore_def unsafeKey_def
      isOwner_unassigned isCollaborator_unassigned lower_examples forEachEntry_def
      setIsCurrentAccount_def)

subsection \<open>The transient annotation\<close>

text \<open>
  Claim C9, as stated, fails: an entry passed to \<open>updateApp\<close> with
  \<^verbatim>\<open>isCurrentAccount: false\<close> is persisted with that property, because the property is
  deleted only where it is truthy.
\<close>

theorem updateApp_keeps_false_annotation:
  "fst (updateApp ''1'' flaggedApp True sharedStore) = Inr ()
   \<and> map collaborators (apps (snd (updateApp ''1'' flaggedApp True sharedStore))) =
       [Some [(''a@x'', \<lparr>cp_accountId = ''1'', permission = Owner, isCurrentAccount = Some False\<rparr>)]]"
  by (simp add: updateApp_run sharedStore_def flaggedApp_def forEachEntry_def
      deleteIsCurrentAccount_def)

lemma set_update_subset: "set (AList.update k v m) \<subseteq> insert (k, v) (set m)"
  by (induction m) auto

lemma set_delete_subset: "set (AList.delete k m) \<subseteq> set m"
  by (auto simp: AList.delete_eq)

lemma set_forEachEntry: "set (forEachEntry f m) = (\<lambda>(k, p). (k, f p)) ` set m"
  by (simp add: forEachEntry_def)

lemma find_in_set: "find P xs = Some x \<Longrightarrow> x \<in> set xs"
  by (metis find_Some_iff nth_mem)

lemma deleteIsCurrentAccount_cases:
  "isCurrentAccount (deleteIsCurrentAccount p) =
     (if isCurrentAccount p = Some False then Some False else None)"
  by (cases "isCurrentAccount p") (auto simp: deleteIsCurrentAccount_def)

lemma setIsCurrentAccount_not_False:
  "isCurrentAccount p = None \<Longrightarrow> isCurrentAccount (setIsCurrentAccount acc p) \<noteq> Some False"
  by (simp add: setIsCurrentAccount_def)

lemma withoutAnnotation_stripped:
  assumes "\<forall>e \<in> set M. isCurrentAccount (snd e) \<noteq> Some False"
  shows "withoutAnnotation (Some (forEachEntry deleteIsCurrentAccount M))"
  using assms by (auto simp: withoutAnnotation_def set_forEachEntry deleteIsCurrentAccount_cases)

lemma never_True_stripped:
  "\<forall>e \<in> set (forEachEntry deleteIsCurrentAccount M). isCurrentAccount (snd e) \<noteq> Some True"
  by (auto simp: set_forEachEntry deleteIsCurrentAccount_cases split: if_splits)

lemma annotated_not_False:
  assumes "withoutAnnotation (Some m)"
  shows "\<forall>e \<in> set (forEachEntry (setIsCurrentAccount acc) m). isCurrentAccount (snd e) \<noteq> Some False"
  using assms
  by (fastforce simp: withoutAnnotation_def set_forEachEntry setIsCurrentAccount_def
      split: if_splits)

lemma update_not_False:
  assumes "\<forall>e \<in> set M. isCurrentAccount (snd e) \<noteq> Some False"
    and "isCurrentAccount v \<noteq> Some False"
  shows "\<forall>e \<in> set (AList.update k v M). isCurrentAccount (snd e) \<noteq> Some False"
  using assms set_update_subset [of k v M] by auto

lemma delete_not_False:
  assumes "\<forall>e \<in> set M. isCurrentAccount (snd e) \<noteq> Some False"
  shows "\<forall>e \<in> set (AList.delete k M). isCurrentAccount (snd e) \<noteq> Some False"
  using assms set_delete_subset [of k M] by auto

lemma looked_up_not_False:
  assumes "\<forall>e \<in> set M. isCurrentAccount (snd e) \<noteq> Some False" and "map_of M k = Some p"
  shows "isCurrentAccount (p\<lparr>permission := perm\<rparr>) \<noteq> Some False"
  using assms by (auto dest!: map_of_SomeD)

lemma setPermission_not_False:
  assumes "\<forall>e \<in> set M. isCurrentAccount (snd e) \<noteq> Some False"
    and "setPermission assigned (Some M) k perm = Some (M', assigned')"
  shows "\<forall>e \<in> set M'. isCurrentAccount (snd e) \<noteq> Some False"
  using assms(2)
proof (cases rule: setPermission_cases)
  case (entry m p)
  then have "M' = AList.update k (p\<lparr>permission := perm\<rparr>) M" and "map_of M k = Some p" by simp_all
  with update_not_False [OF assms(1) looked_up_not_False [OF assms(1)]] show ?thesis by simp
next
  case inherited
  with assms(1) show ?thesis by simp
qed

lemma assignEntry_not_False:
  assumes "\<forall>e \<in> set M. isCurrentAccount (snd e) \<noteq> Some False"
    and "isCurrentAccount v \<noteq> Some False"
  shows "\<forall>e \<in> set (assignEntry k v M). isCurrentAccount (snd e) \<noteq> Some False"
  using assms update_not_False [OF assms] by (simp add: assignEntry_def)

lemma storedWithoutAnnotation_rewritten:
  assumes "storedWithoutAnnotation s"
    and "withoutAnnotation (Some M)"
    and "apps s' = map (\<lambda>row. if app_id row = appId
                       then row\<lparr>app_name := name, collaborators := Some M\<rparr> else row) (apps s)"
  shows "storedWithoutAnnotation s'"
  using assms(1,2) unfolding storedWithoutAnnotation_def assms(3) ball_set_map by simp

lemma storedWithoutAnnotation_sameRows:
  "sameRows s s' \<Longrightarrow> storedWithoutAnnotation s \<Longrightarrow> storedWithoutAnnotation s'"
  by (simp add: sameRows_def storedWithoutAnnotation_def)

lemma stored_row_withoutAnnotation:
  assumes "storedWithoutAnnotation s" and "find (\<lambda>a. app_id a = appId) (apps s) = Some app"
    and "collaborators app = Some m"
  shows "withoutAnnotation (Some m)"
  using assms(1,3) find_in_set [OF assms(2)] by (auto simp: storedWithoutAnnotation_def)

lemma transferApp_withoutAnnotation:
  assumes "storedWithoutAnnotation s"
  shows "storedWithoutAnnotation (snd (transferApp isPrototypePollutionKey toLowerCase accountId appId email s))"
proof -
  obtain r s' where run: "transferApp isPrototypePollutionKey toLowerCase accountId appId email s = (r, s')"
    by (cases "transferApp isPrototypePollutionKey toLowerCase accountId appId email s")
  from run have "storedWithoutAnnotation s'"
  proof (cases rule: transferApp_cases)
    case (rejected e)
    with assms show ?thesis by (simp add: storedWithoutAnnotation_sameRows)
  next
    case (transferred account app target m demoted assigned final)
    let ?m' = "forEachEntry (setIsCurrentAccount (acc_id account)) m"
    have m': "\<forall>e \<in> set ?m'. isCurrentAccount (snd e) \<noteq> Some False"
      by (rule annotated_not_False [OF stored_row_withoutAnnotation [OF assms transferred(3,5)]])
    have dem: "\<forall>e \<in> set demoted. isCurrentAccount (snd e) \<noteq> Some False"
      by (rule setPermission_not_False [OF m' transferred(7)])
    from transferred(8) have "\<forall>e \<in> set final. isCurrentAccount (snd e) \<noteq> Some False"
    proof
      assume "isCollaborator assigned (Some demoted) (acc_email target) \<and>
        setPermission assigned (Some demoted) (acc_email target) Owner =
          Some (final, objectPrototype s') \<and>
        account_to_apps_map s' = account_to_apps_map s"
      then show ?thesis using setPermission_not_False [OF dem] by blast
    next
      assume "\<not> isCollaborator assigned (Some demoted) (acc_email target) \<and>
        final = assignEntry (acc_email target)
          \<lparr>cp_accountId = acc_id target, permission = Owner, isCurrentAccount = None\<rparr> demoted \<and>
        objectPrototype s' = assigned \<and>
        account_to_apps_map s' =
          (if (acc_id target, appId) \<in> set (account_to_apps_map s) then account_to_apps_map s
           else account_to_apps_map s @ [(acc_id target, appId)])"
      moreover have "\<forall>e \<in> set (assignEntry (acc_email target)
          \<lparr>cp_accountId = acc_id target, permission = Owner, isCurrentAccount = None\<rparr> demoted).
          isCurrentAccount (snd e) \<noteq> Some False"
        by (rule assignEntry_not_False [OF dem]) simp
      ultimately show ?thesis by simp
    qed
    then have "withoutAnnotation (Some (forEachEntry deleteIsCurrentAccount final))"
      by (rule withoutAnnotation_stripped)
    then show ?thesis
      by (rule storedWithoutAnnotation_rewritten [OF assms _ transferred(9)])
  qed
  with run show ?thesis by simp
qed

lemma addCollaborator_withoutAnnotation:
  assumes "storedWithoutAnnotation s"
  shows "storedWithoutAnnotation (snd (addCollaborator isPrototypePollutionKey toLowerCase accountId appId email s))"
proof -
  obtain r s' where run: "addCollaborator isPrototypePollutionKey toLowerCase accountId appId email s = (r, s')"
    by (cases "addCollaborator isPrototypePollutionKey toLowerCase accountId appId email s")
  from run have "storedWithoutAnnotation s'"
  proof (cases rule: addCollaborator_cases)
    case (rejected e)
    with assms show ?thesis by (simp add: storedWithoutAnnotation_sameRows)
  next
    case (added account app target m)
    let ?m' = "forEachEntry (setIsCurrentAccount (acc_id account)) m"
    have m': "\<forall>e \<in> set ?m'. isCurrentAccount (snd e) \<noteq> Some False"
      by (rule annotated_not_False [OF stored_row_withoutAnnotation [OF assms added(3,5)]])
    have "withoutAnnotation (Some (forEachEntry deleteIsCurrentAccount
        (assignEntry (acc_email target)
           \<lparr>cp_accountId = acc_id target, permission = Collaborator, isCurrentAccount = None\<rparr> ?m')))"
      by (rule withoutAnnotation_stripped [OF assignEntry_not_False [OF m']]) simp
    then show ?thesis
      by (rule storedWithoutAnnotation_rewritten [OF assms _ added(8)])
  qed
  with run show ?thesis by simp
qed

lemma removeCollaborator_withoutAnnotation:
  assumes "storedWithoutAnnotation s"
  shows "storedWithoutAnnotation (snd (removeCollaborator toLowerCase accountId appId email s))"
proof -
  obtain r s' where run: "removeCollaborator toLowerCase accountId appId email s = (r, s')"
    by (cases "removeCollaborator toLowerCase accountId appId email s")
  from run have "storedWithoutAnnotation s'"
  proof (cases rule: removeCollaborator_cases)
    case rejected
    with assms show ?thesis by (simp add: storedWithoutAnnotation_sameRows)
  next
    case (removed account app target m)
    let ?m' = "forEachEntry (setIsCurrentAccount (acc_id account)) m"
    have m': "\<forall>e \<in> set ?m'. isCurrentAccount (snd e) \<noteq> Some False"
      by (rule annotated_not_False [OF stored_row_withoutAnnotation [OF assms removed(3,7)]])
    have "withoutAnnotation (Some (forEachEntry deleteIsCurrentAccount (AList.delete email ?m')))"
      by (rule withoutAnnotation_stripped [OF delete_not_False [OF m']])
    then show ?thesis
      by (rule storedWithoutAnnotation_rewritten [OF assms _ removed(9)])
  qed
  with run show ?thesis by simp
qed

lemma updateApp_rows:
  assumes "fst (updateApp accountId app ensureIsOwner s) = Inr ()"
  shows "apps (snd (updateApp accountId app ensureIsOwner s)) =
      map (\<lambda>row. if app_id row = app_id app
                 then row\<lparr>app_name := app_name app,
                          collaborators := map_option (forEachEntry deleteIsCurrentAccount) (collaborators app)\<rparr>
                 else row) (apps s)"
  using assms by (simp add: updateApp_run split: option.splits)

text \<open>
  Claim C9, amended. After a successful \<open>updateApp\<close> no entry of the persisted map of
  the app has \<^verbatim>\<open>isCurrentAccount\<close> true, and when no entry of the app passed in has it false,
  the persisted map has no such property at all. \<open>transferApp\<close>, \<open>addCollaborator\<close> and
  \<open>removeCollaborator\<close> keep the stored maps free of the property, whatever their outcome.
\<close>

theorem updateApp_strips_true_annotation:
  "(fst (updateApp accountId app ensureIsOwner s) = Inr () \<longrightarrow>
      (\<forall>row \<in> set (apps (snd (updateApp accountId app ensureIsOwner s))).
         app_id row = app_id app \<longrightarrow>
           (\<forall>m. collaborators row = Some m \<longrightarrow>
              (\<forall>e \<in> set m. isCurrentAccount (snd e) \<noteq> Some True)) \<and>
           ((\<forall>m. collaborators app = Some m \<longrightarrow>
              (\<forall>e \<in> set m. isCurrentAccount (snd e) \<noteq> Some False)) \<longrightarrow>
            withoutAnnotation (collaborators row))))
   \<and> (storedWithoutAnnotation s \<longrightarrow>
        storedWithoutAnnotation (snd (transferApp isPrototypePollutionKey toLowerCase requester appId email s)) \<and>
        storedWithoutAnnotation (snd (addCollaborator isPrototypePollutionKey toLowerCase requester appId email s)) \<and>
        storedWithoutAnnotation (snd (removeCollaborator toLowerCase requester appId email s)))"
proof -
  have 1: "\<forall>row \<in> set (apps (snd (updateApp accountId app ensureIsOwner s))).
         app_id row = app_id app \<longrightarrow>
           (\<forall>m. collaborators row = Some m \<longrightarrow>
              (\<forall>e \<in> set m. isCurrentAccount (snd e) \<noteq> Some True)) \<and>
           ((\<forall>m. collaborators app = Some m \<longrightarrow>
              (\<forall>e \<in> set m. isCurrentAccount (snd e) \<noteq> Some False)) \<longrightarrow>
            withoutAnnotation (collaborators row))"
    if ok: "fst (updateApp accountId app ensureIsOwner s) = Inr ()"
  proof (cases "collaborators app")
    case None
    then show ?thesis
      unfolding updateApp_rows [OF ok] ball_set_map by (simp add: withoutAnnotation_def)
  next
    case (Some M)
    with never_True_stripped [of M] withoutAnnotation_stripped [of M]
    show ?thesis
      unfolding updateApp_rows [OF ok] ball_set_map by simp
  qed
  show ?thesis
    using 1 transferApp_withoutAnnotation addCollaborator_withoutAnnotation
      removeCollaborator_withoutAnnotation
    by blast
qed

theorem updateApp_strips_true_annotation_witness:
  "fst (getApp ''1'' ''p'' sharedStore) = Inr annotatedApp
   \<and> fst (updateApp ''1'' annotatedApp True sharedStore) = Inr ()
   \<and> withoutAnnotation (collaborators (hd (apps (snd (updateApp ''1'' annotatedApp True sharedStore)))))
   \<and> storedWithoutAnnotation sharedStore
   \<and> storedWithoutAnnotation (snd (transferApp unsafeKey asciiLowerCase ''1'' ''p'' ''b@x'' sharedStore))
   \<and> storedWithoutAnnotation (snd (addCollaborator unsafeKey asciiLowerCase ''1'' ''p'' ''c@x'' sharedStore))
   \<and> storedWithoutAnnotation (snd (removeCollaborator asciiLowerCase ''1'' ''p'' ''b@x'' sharedStore))"
proof -
  have get: "fst (getApp ''1'' ''p'' sharedStore) = Inr annotatedApp"
    by (simp add: getApp_run sharedStore_def annotatedApp_def addIsCurrentAccountProperty_def
        forEachEntry_def setIsCurrentAccount_def)
  have ok: "fst (updateApp ''1'' annotatedApp True sharedStore) = Inr ()"
    by (simp add: updateApp_run sharedStore_def annotatedApp_def)
  have row: "hd (apps (snd (updateApp ''1'' annotatedApp True sharedStore)))
      \<in> set (apps (snd (updateApp ''1'' annotatedApp True sharedStore)))"
    by (simp add: updateApp_run sharedStore_def annotatedApp_def)
  have rid: "app_id (hd (apps (snd (updateApp ''1'' annotatedApp True sharedStore)))) = app_id annotatedApp"
    by (simp add: updateApp_run sharedStore_def annotatedApp_def)
  have noFalse: "\<forall>m. collaborators annotatedApp = Some m \<longrightarrow>
      (\<forall>e \<in> set m. isCurrentAccount (snd e) \<noteq> Some False)"
    by (simp add: annotatedApp_def)
  have stored: "storedWithoutAnnotation sharedStore"
    by (simp add: storedWithoutAnnotation_def withoutAnnotation_def sharedStore_def)
  note inst = updateApp_strips_true_annotation
    [where accountId = "''1''" and app = annotatedApp and ensureIsOwner = True and s = sharedStore
       and isPrototypePollutionKey = unsafeKey and toLowerCase = asciiLowerCase
       and requester = "''1''" and appId = "''p''"]
  from inst [of "''b@x''"] ok row rid noFalse
  have 1: "withoutAnnotation (collaborators (hd (apps (snd (updateApp ''1'' annotatedApp True sharedStore)))))"
    by blast
  from inst [of "''b@x''"] inst [of "''c@x''"] stored
  have 2: "storedWithoutAnnotation (snd (transferApp unsafeKey asciiLowerCase ''1'' ''p'' ''b@x'' sharedStore))"
    "storedWithoutAnnotation (snd (addCollaborator unsafeKey asciiLowerCase ''1'' ''p'' ''c@x'' sharedStore))"
    "storedWithoutAnnotation (snd (removeCollaborator asciiLowerCase ''1'' ''p'' ''b@x'' sharedStore))"
    by blast+
  from get ok 1 stored 2 show ?thesis by simp
qed

subsection \<open>Exactly one Owner\<close>

lemma keys_forEachEntry [simp]: "map fst (forEachEntry f m) = map fst m"
  by (induction m) (auto simp: forEachEntry_def)

lemma key_set_forEachEntry [simp]: "fst ` set (forEachEntry f m) = fst ` set m"
  using keys_forEachEntry [of f m] by (metis list.set_map)

lemma isOwner_update:
  "isOwner assigned (Some (AList.update k v m)) k' =
     (if k' = k then permission v = Owner else isOwner assigned (Some m) k')"
  by (simp add: isOwner_def getMember_def memberPermission_def update_conv')

lemma isOwner_delete:
  "isOwner [] (Some (AList.delete k m)) k' = (k' \<noteq> k \<and> isOwner [] (Some m) k')"
  by (simp add: isOwner_unassigned delete_conv')

lemma owner_keys:
  assumes "distinct (map fst m)"
  shows "set (map fst (filter (\<lambda>(email, p). permission p = Owner) m)) = {k. isOwner [] (Some m) k}"
proof (rule set_eqI)
  fix k
  have "k \<in> set (map fst (filter (\<lambda>(email, p). permission p = Owner) m)) \<longleftrightarrow>
      (\<exists>p. (k, p) \<in> set m \<and> permission p = Owner)"
    by force
  also have "\<dots> \<longleftrightarrow> (\<exists>p. map_of m k = Some p \<and> permission p = Owner)"
    using assms by simp
  also have "\<dots> \<longleftrightarrow> isOwner [] (Some m) k"
    by (simp add: isOwner_unassigned)
  finally show "k \<in> set (map fst (filter (\<lambda>(email, p). permission p = Owner) m)) \<longleftrightarrow>
      k \<in> {k. isOwner [] (Some m) k}"
    by simp
qed

lemma singleton_collect_iff: "(\<exists>x. {k. P k} = {x}) \<longleftrightarrow> (\<exists>!k. P k)"
proof
  assume "\<exists>x. {k. P k} = {x}"
  then obtain x where x: "{k. P k} = {x}" ..
  then have "P x" by blast
  moreover have "y = x" if "P y" for y using x that by blast
  ultimately show "\<exists>!k. P k" by blast
next
  assume "\<exists>!k. P k"
  then obtain k where "P k" and "\<And>y. P y \<Longrightarrow> y = k" by blast
  then have "{k. P k} = {k}" by blast
  then show "\<exists>x. {k. P k} = {x}" ..
qed

lemma oneOwner_iff:
  assumes "distinct (map fst m)"
  shows "oneOwner m \<longleftrightarrow> (\<exists>!k. isOwner [] (Some m) k)"
proof -
  let ?owners = "map fst (filter (\<lambda>(email, p). permission p = Owner) m)"
  have d: "distinct ?owners"
    using assms by (rule distinct_map_filter)
  have "oneOwner m \<longleftrightarrow> length ?owners = 1"
    by (simp add: oneOwner_def)
  also have "\<dots> \<longleftrightarrow> card (set ?owners) = 1"
    using distinct_card [OF d] by simp
  also have "\<dots> \<longleftrightarrow> card {k. isOwner [] (Some m) k} = 1"
    by (simp only: owner_keys [OF assms])
  also have "\<dots> \<longleftrightarrow> (\<exists>!k. isOwner [] (Some m) k)"
    by (simp only: One_nat_def card_1_singleton_iff singleton_collect_iff)
  finally show ?thesis .
qed

lemma same_email_same_account:
  assumes "registeredAccounts toLowerCase s" "a \<in> set (accounts s)" "b \<in> set (accounts s)"
    "acc_email a = acc_email b"
  shows "a = b"
proof -
  from assms(1) have "inj_on acc_email (set (accounts s))"
    by (simp add: registeredAccounts_def distinct_map)
  then show ?thesis using assms(4,2,3) by (rule inj_onD)
qed

lemma same_id_same_account:
  assumes "registeredAccounts toLowerCase s" "a \<in> set (accounts s)" "b \<in> set (accounts s)"
    "acc_id a = acc_id b"
  shows "a = b"
proof -
  from assms(1) have "inj_on acc_id (set (accounts s))"
    by (simp add: registeredAccounts_def distinct_map)
  then show ?thesis using assms(4,2,3) by (rule inj_onD)
qed

lemma registered_email:
  assumes "registeredAccounts toLowerCase s" "a \<in> set (accounts s)"
  shows "toLowerCase (acc_email a) = acc_email a" "acc_email a \<noteq> ''__proto__''"
  using assms by (simp_all add: registeredAccounts_def)

lemma find_email: "find (\<lambda>a. acc_email a = email) xs = Some a \<Longrightarrow> acc_email a = email"
  by (simp add: find_Some_iff) blast

lemma registeredAccounts_cong:
  "accounts s' = accounts s \<Longrightarrow> registeredAccounts toLowerCase s' = registeredAccounts toLowerCase s"
  by (simp add: registeredAccounts_def)

lemma linkedEntries_mono:
  assumes l: "linkedEntries s appId m" and acc: "accounts s' = accounts s"
    and links: "\<And>a. (a, appId) \<in> set (account_to_apps_map s) \<Longrightarrow>
      (a, appId) \<in> set (account_to_apps_map s')"
  shows "linkedEntries s' appId m"
  unfolding linkedEntries_def
proof
  fix email assume "email \<in> fst ` set m"
  with l obtain a where "a \<in> set (accounts s)" "acc_email a = email"
    "(acc_id a, appId) \<in> set (account_to_apps_map s)"
    unfolding linkedEntries_def by blast
  with acc links [of "acc_id a"]
  show "\<exists>a \<in> set (accounts s'). acc_email a = email \<and> (acc_id a, appId) \<in> set (account_to_apps_map s')"
    by auto
qed

lemma wellFormedApp_mono:
  assumes w: "wellFormedApp s row" and acc: "accounts s' = accounts s"
    and links: "\<And>a. (a, app_id row) \<in> set (account_to_apps_map s) \<Longrightarrow>
           (a, app_id row) \<in> set (account_to_apps_map s')"
  shows "wellFormedApp s' row"
proof (cases "collaborators row")
  case None
  with w show ?thesis by (simp add: wellFormedApp_def)
next
  case (Some m)
  with w have "distinct (map fst m)" "oneOwner m" "linkedEntries s (app_id row) m"
    by (simp_all add: wellFormedApp_def)
  with Some linkedEntries_mono [OF _ acc links, of m] show ?thesis
    by (simp add: wellFormedApp_def)
qed

lemma consistent_rewritten:
  assumes "consistent toLowerCase s" and "accounts s' = accounts s"
    and "objectPrototype s' = []"
    and other: "\<And>(row :: app) a. app_id row \<noteq> appId \<Longrightarrow> (a, app_id row) \<in> set (account_to_apps_map s) \<Longrightarrow>
           (a, app_id row) \<in> set (account_to_apps_map s')"
    and M: "distinct (map fst M)" "oneOwner M" "linkedEntries s' appId M"
    and rows: "apps s' = map (\<lambda>row. if app_id row = appId
                       then row\<lparr>app_name := name, collaborators := Some M\<rparr> else row) (apps s)"
  shows "consistent toLowerCase s'"
proof -
  have reg: "registeredAccounts toLowerCase s'"
    using assms(1) by (simp add: consistent_def registeredAccounts_cong [OF assms(2)])
  have "wellFormedApp s' (if app_id row = appId
                       then row\<lparr>app_name := name, collaborators := Some M\<rparr> else row)"
    if "row \<in> set (apps s)" for row
  proof (cases "app_id row = appId")
    case True
    with M show ?thesis by (simp add: wellFormedApp_def)
  next
    case False
    from assms(1) that have "wellFormedApp s row" by (simp add: consistent_def)
    then have "wellFormedApp s' row"
      by (rule wellFormedApp_mono [OF _ assms(2)]) (rule other [OF False])
    with False show ?thesis by simp
  qed
  then have "\<forall>row \<in> set (apps s). wellFormedApp s' (if app_id row = appId
                       then row\<lparr>app_name := name, collaborators := Some M\<rparr> else row)"
    by (rule ballI)
  then have "\<forall>row \<in> set (map (\<lambda>row. if app_id row = appId
                       then row\<lparr>app_name := name, collaborators := Some M\<rparr> else row) (apps s)).
      wellFormedApp s' row"
    by (simp only: ball_set_map)
  then have "\<forall>row \<in> set (apps s'). wellFormedApp s' row"
    by (simp only: rows)
  with reg assms(3) show ?thesis by (simp add: consistent_def)
qed

lemma consistent_row:
  assumes "consistent toLowerCase s" "find (\<lambda>a. app_id a = appId) (apps s) = Some app"
    "collaborators app = Some m"
  shows "distinct (map fst m)" "oneOwner m" "linkedEntries s appId m"
  using assms(1,3) find_in_set [OF assms(2)] find_app_id [OF assms(2)]
  by (auto simp: consistent_def wellFormedApp_def)

lemma consistent_unassigned: "consistent toLowerCase s \<Longrightarrow> objectPrototype s = []"
  by (simp add: consistent_def)

lemma consistent_registered: "consistent toLowerCase s \<Longrightarrow> registeredAccounts toLowerCase s"
  by (simp add: consistent_def)

lemma map_of_key: "map_of m k = Some p \<Longrightarrow> k \<in> fst ` set m"
  by (metis map_of_eq_None_iff option.distinct(1))

lemma isCollaborator_key: "isCollaborator [] (Some m) k \<Longrightarrow> k \<in> fst ` set m"
  by (auto simp: isCollaborator_unassigned dest: map_of_key)

text \<open>
  A transfer that resolves, in a process that has assigned no permission to a member of
  \<^verbatim>\<open>Object.prototype\<close>, issued by the account that holds the Owner entry, to an account
  whose email is not \<^verbatim>\<open>__proto__\<close>.
\<close>

lemma transferApp_by_owner:
  assumes run: "transferApp isPrototypePollutionKey toLowerCase accountId appId email s = (Inr u, s')"
  obtains (assigned) "objectPrototype s \<noteq> []"
  | (byOther) account app where
      "find (\<lambda>a. acc_id a = accountId) (accounts s) = Some account"
      "find (\<lambda>a. app_id a = appId) (apps s) = Some app"
      "\<not> isOwner [] (collaborators app) (acc_email account)"
  | (toProto) target where
      "find (\<lambda>a. acc_email a = toLowerCase email) (accounts s) = Some target"
      "acc_email target = ''__proto__''"
  | (byOwner) account app target m p v where
      "find (\<lambda>a. acc_id a = accountId) (accounts s) = Some account"
      "find (\<lambda>a. app_id a = appId) (apps s) = Some app"
      "find (\<lambda>a. acc_email a = toLowerCase email) (accounts s) = Some target"
      "collaborators app = Some m"
      "\<not> isOwner [] (Some m) (acc_email target)"
      "map_of (forEachEntry (setIsCurrentAccount (acc_id account)) m) (acc_email account) = Some p"
      "permission v = Owner"
      "apps s' = map (\<lambda>row. if app_id row = appId
                       then row\<lparr>app_name := app_name app,
                                collaborators := Some (forEachEntry deleteIsCurrentAccount
                                  (AList.update (acc_email target) v
                                    (AList.update (acc_email account) (p\<lparr>permission := Collaborator\<rparr>)
                                      (forEachEntry (setIsCurrentAccount (acc_id account)) m))))\<rparr>
                       else row) (apps s)"
      "set (account_to_apps_map s) \<subseteq> set (account_to_apps_map s')"
      "isCollaborator [] (Some (AList.update (acc_email account) (p\<lparr>permission := Collaborator\<rparr>)
          (forEachEntry (setIsCurrentAccount (acc_id account)) m))) (acc_email target) \<or>
       (acc_id target, appId) \<in> set (account_to_apps_map s')"
      "accounts s' = accounts s" "objectPrototype s' = []"
  using run
proof (cases rule: transferApp_cases)
  case (rejected e)
  then show ?thesis by simp
next
  case (transferred account app target m demoted assigned' final)
  let ?r = "acc_email account" and ?t = "acc_email target"
  let ?m' = "forEachEntry (setIsCurrentAccount (acc_id account)) m"
  show ?thesis
  proof (cases "objectPrototype s = [] \<and> isOwner [] (collaborators app) ?r \<and> ?t \<noteq> ''__proto__''")
    case False
    then consider "objectPrototype s \<noteq> []" | "\<not> isOwner [] (collaborators app) ?r"
      | "?t = ''__proto__''"
      by blast
    then show ?thesis
    proof cases
      case 1
      then show ?thesis by (rule assigned)
    next
      case 2
      show ?thesis by (rule byOther [OF transferred(2,3) 2])
    next
      case 3
      show ?thesis by (rule toProto [OF transferred(4) 3])
    qed
  next
    case True
    then have unassigned: "objectPrototype s = []"
      and own: "isOwner [] (collaborators app) ?r" and tname: "?t \<noteq> ''__proto__''"
      by simp_all
  from own transferred(5) have "isOwner [] (Some m) ?r" by simp
  then obtain p0 where "map_of m ?r = Some p0"
    by (auto simp: isOwner_unassigned)
  then obtain p where p: "map_of ?m' ?r = Some p"
    by (simp add: map_of_forEachEntry)
  let ?demoted = "AList.update ?r (p\<lparr>permission := Collaborator\<rparr>) ?m'"
  from transferred(7) p have dem: "demoted = ?demoted" and none: "assigned' = []"
    by (simp_all add: setPermission_def getMember_def unassigned)
  from transferred(6) have notOwner: "\<not> isOwner [] (Some m) ?t"
    by (simp add: unassigned)
  from transferred(8) obtain v where v: "permission v = Owner"
    "final = AList.update ?t v ?demoted" "objectPrototype s' = []"
    "set (account_to_apps_map s) \<subseteq> set (account_to_apps_map s')"
    "isCollaborator [] (Some ?demoted) ?t \<or> (acc_id target, appId) \<in> set (account_to_apps_map s')"
  proof
    assume a: "isCollaborator assigned' (Some demoted) ?t \<and>
        setPermission assigned' (Some demoted) ?t Owner = Some (final, objectPrototype s') \<and>
        account_to_apps_map s' = account_to_apps_map s"
    then have col: "isCollaborator [] (Some ?demoted) ?t"
      by (simp add: dem none)
    then obtain q where q: "map_of ?demoted ?t = Some q"
      by (auto simp: isCollaborator_unassigned)
    from a have "setPermission [] (Some ?demoted) ?t Owner = Some (final, objectPrototype s')"
      by (simp add: dem none)
    with q have "final = AList.update ?t (q\<lparr>permission := Owner\<rparr>) ?demoted"
      and "objectPrototype s' = []"
      by (simp_all add: setPermission_def getMember_def)
    moreover have "permission (q\<lparr>permission := Owner\<rparr>) = Owner" by simp
    moreover from a have "set (account_to_apps_map s) \<subseteq> set (account_to_apps_map s')" by simp
    ultimately show ?thesis using col that by blast
  next
    let ?v = "\<lparr>cp_accountId = acc_id target, permission = Owner, isCurrentAccount = None\<rparr>"
    assume b: "\<not> isCollaborator assigned' (Some demoted) ?t \<and>
        final = assignEntry ?t ?v demoted \<and>
        objectPrototype s' = assigned' \<and>
        account_to_apps_map s' =
          (if (acc_id target, appId) \<in> set (account_to_apps_map s) then account_to_apps_map s
           else account_to_apps_map s @ [(acc_id target, appId)])"
    then have "final = AList.update ?t ?v ?demoted"
      using tname by (simp add: assignEntry_def dem)
    moreover have "permission ?v = Owner" by simp
    moreover from b have "objectPrototype s' = []" by (simp add: none)
    moreover from b have "set (account_to_apps_map s) \<subseteq> set (account_to_apps_map s')" by auto
    moreover from b have "(acc_id target, appId) \<in> set (account_to_apps_map s')" by simp
    ultimately show ?thesis using that by blast
  qed
  have rows: "apps s' = map (\<lambda>row. if app_id row = appId
                       then row\<lparr>app_name := app_name app,
                                collaborators := Some (forEachEntry deleteIsCurrentAccount
                                  (AList.update ?t v ?demoted))\<rparr>
                       else row) (apps s)"
    using transferred(9) v(2) by simp
  show ?thesis
    by (rule byOwner [OF transferred(2-5) notOwner p v(1) rows v(4,5) transferred(10) v(3)])
  qed
qed

lemma transferApp_consistent:
  assumes c: "consistent toLowerCase s"
    and run: "transferApp isPrototypePollutionKey toLowerCase accountId appId email s = (Inr u, s')"
    and owner: "\<And>account app. find (\<lambda>a. acc_id a = accountId) (accounts s) = Some account \<Longrightarrow>
        find (\<lambda>a. app_id a = appId) (apps s) = Some app \<Longrightarrow>
        isOwner [] (collaborators app) (acc_email account)"
  shows "consistent toLowerCase s'"
proof -
  have named: "acc_email target \<noteq> ''__proto__''"
    if "find (\<lambda>a. acc_email a = toLowerCase email) (accounts s) = Some target" for target
    by (rule registered_email(2) [OF consistent_registered [OF c] find_in_set [OF that]])
  from run show ?thesis
  proof (cases rule: transferApp_by_owner)
    case assigned
    with consistent_unassigned [OF c] show ?thesis by simp
  next
    case (byOther account app)
    with owner show ?thesis by blast
  next
    case (toProto target)
    with named show ?thesis by blast
  next
    case 1: (byOwner account app target m p v)
    let ?r = "acc_email account" and ?t = "acc_email target"
    let ?m' = "forEachEntry (setIsCurrentAccount (acc_id account)) m"
    let ?demoted = "AList.update ?r (p\<lparr>permission := Collaborator\<rparr>) ?m'"
    let ?M = "forEachEntry deleteIsCurrentAccount (AList.update ?t v ?demoted)"
    note row = consistent_row [OF c 1(2,4)]
    from owner [OF 1(1,2)] 1(4) have own: "isOwner [] (Some m) ?r" by simp
    from row(2) have uniq: "\<exists>!k. isOwner [] (Some m) k" by (simp add: oneOwner_iff [OF row(1)])
    with own have only: "isOwner [] (Some m) k \<longleftrightarrow> k = ?r" for k by blast
    have rkey: "?r \<in> fst ` set m"
      using map_of_key [OF 1(6)] by simp
    have d: "distinct (map fst ?M)"
      by (simp add: distinct_update row(1))
    have "isOwner [] (Some ?M) k \<longleftrightarrow> k = ?t" for k
      using 1(5,7) only by (simp add: isOwner_update)
    then have "\<exists>!k. isOwner [] (Some ?M) k" by simp
    then have one: "oneOwner ?M"
      by (simp only: oneOwner_iff [OF d])
    have dkeys: "fst ` set ?demoted = fst ` set m"
      using rkey by (simp add: dom_update insert_absorb)
    have keys: "fst ` set ?M = insert ?t (fst ` set m)"
      using rkey by (auto simp: dom_update)
    have tin: "target \<in> set (accounts s')"
      using find_in_set [OF 1(3)] 1(11) by simp
    have tlink: "?t \<in> fst ` set m \<or> (acc_id target, appId) \<in> set (account_to_apps_map s')"
    proof (cases "isCollaborator [] (Some ?demoted) ?t")
      case True
      from isCollaborator_key [OF this] dkeys show ?thesis by simp
    next
      case False
      with 1(10) show ?thesis by simp
    qed
    have old: "\<exists>a \<in> set (accounts s'). acc_email a = k \<and> (acc_id a, appId) \<in> set (account_to_apps_map s')"
      if k: "k \<in> fst ` set m" for k
    proof -
      from row(3) k obtain a where "a \<in> set (accounts s)" "acc_email a = k"
        "(acc_id a, appId) \<in> set (account_to_apps_map s)"
        unfolding linkedEntries_def by blast
      with 1(9,11) show ?thesis by auto
    qed
    have l: "linkedEntries s' appId ?M"
      unfolding linkedEntries_def keys
    proof
      fix k assume "k \<in> insert ?t (fst ` set m)"
      then consider "k \<in> fst ` set m" | "k = ?t" "(acc_id target, appId) \<in> set (account_to_apps_map s')"
        using tlink by blast
      then show "\<exists>a \<in> set (accounts s'). acc_email a = k \<and> (acc_id a, appId) \<in> set (account_to_apps_map s')"
      proof cases
        case 1
        then show ?thesis by (rule old)
      next
        case 2
        with tin show ?thesis by blast
      qed
    qed
    have other: "(a, app_id row) \<in> set (account_to_apps_map s')"
      if "app_id row \<noteq> appId" "(a, app_id row) \<in> set (account_to_apps_map s)" for row :: app and a
      using 1(9) that(2) by blast
    show ?thesis
      by (rule consistent_rewritten [OF c 1(11,12) other d one l 1(8)])
  qed
qed

lemma isOwner_absent: "map_of m k = None \<Longrightarrow> \<not> isOwner [] (Some m) k"
  by (simp add: isOwner_unassigned)

lemma key_set_delete: "fst ` set (AList.delete k m) = fst ` set m - {k}"
  using delete_keys [of k m] by (metis list.set_map set_removeAll)

lemma addCollaborator_consistent:
  assumes c: "consistent toLowerCase s"
    and run: "addCollaborator isPrototypePollutionKey toLowerCase accountId appId email s = (Inr u, s')"
  shows "consistent toLowerCase s'"
  using run
proof (cases rule: addCollaborator_cases)
  case (rejected e)
  then show ?thesis by simp
next
  case (added account app target m)
  let ?t = "acc_email target"
  let ?m' = "forEachEntry (setIsCurrentAccount (acc_id account)) m"
  let ?new = "\<lparr>cp_accountId = acc_id target, permission = Collaborator, isCurrentAccount = None\<rparr>"
  let ?M = "forEachEntry deleteIsCurrentAccount (AList.update ?t ?new ?m')"
  note row = consistent_row [OF c added(3,5)]
  note reg = consistent_registered [OF c]
  have tin: "target \<in> set (accounts s)"
    by (rule find_in_set [OF added(4)])
  have assigned: "assignEntry ?t ?new ?m' = AList.update ?t ?new ?m'"
    using registered_email(2) [OF reg tin] by (simp add: assignEntry_def)
  have fresh: "?t \<notin> fst ` set m"
  proof
    assume "?t \<in> fst ` set m"
    with row(3) obtain a where a: "a \<in> set (accounts s)" "acc_email a = ?t"
      "(acc_id a, appId) \<in> set (account_to_apps_map s)"
      unfolding linkedEntries_def by blast
    from same_email_same_account [OF reg a(1) tin a(2)] a(3) added(7)
    show False by simp
  qed
  then have absent: "map_of m ?t = None"
    by (simp add: map_of_eq_None_iff)
  have d: "distinct (map fst ?M)"
    by (simp add: distinct_update row(1))
  have "isOwner [] (Some ?M) k \<longleftrightarrow> isOwner [] (Some m) k" for k
    using isOwner_absent [OF absent] by (simp add: isOwner_update)
  with row(2) have one: "oneOwner ?M"
    by (simp only: oneOwner_iff [OF d] oneOwner_iff [OF row(1)])
  have keys: "fst ` set ?M = insert ?t (fst ` set m)"
    by (simp add: dom_update)
  have l: "linkedEntries s' appId ?M"
    unfolding linkedEntries_def keys
  proof
    fix k assume "k \<in> insert ?t (fst ` set m)"
    then consider "k = ?t" | "k \<in> fst ` set m" by blast
    then show "\<exists>a \<in> set (accounts s'). acc_email a = k \<and> (acc_id a, appId) \<in> set (account_to_apps_map s')"
    proof cases
      case 1
      with tin added(9,10) show ?thesis by auto
    next
      case 2
      with row(3) obtain a where "a \<in> set (accounts s)" "acc_email a = k"
        "(acc_id a, appId) \<in> set (account_to_apps_map s)"
        unfolding linkedEntries_def by blast
      with added(9,10) show ?thesis by auto
    qed
  qed
  have other: "(a, app_id row) \<in> set (account_to_apps_map s')"
    if "app_id row \<noteq> appId" "(a, app_id row) \<in> set (account_to_apps_map s)" for row :: app and a
    using added(9) that(2) by simp
  have unassigned: "objectPrototype s' = []"
    using added(13) consistent_unassigned [OF c] by simp
  have rows: "apps s' = map (\<lambda>row. if app_id row = appId
                       then row\<lparr>app_name := app_name app, collaborators := Some ?M\<rparr>
                       else row) (apps s)"
    using added(8) by (simp only: assigned)
  show ?thesis
    by (rule consistent_rewritten [OF c added(10) unassigned other d one l rows])
qed

lemma removeCollaborator_consistent:
  assumes c: "consistent toLowerCase s"
    and run: "removeCollaborator toLowerCase accountId appId email s = (Inr u, s')"
  shows "consistent toLowerCase s'"
  using run
proof (cases rule: removeCollaborator_cases)
  case rejected
  then show ?thesis by simp
next
  case (removed account app target m)
  let ?m' = "forEachEntry (setIsCurrentAccount (acc_id account)) m"
  let ?M = "forEachEntry deleteIsCurrentAccount (AList.delete email ?m')"
  note row = consistent_row [OF c removed(3,7)]
  note reg = consistent_registered [OF c]
  have tin: "target \<in> set (accounts s)"
    by (rule find_in_set [OF removed(4)])
  from removed(6,7) have col: "isCollaborator [] (Some m) email"
    by (simp add: consistent_unassigned [OF c])
  have ekey: "email \<in> fst ` set m"
    by (rule isCollaborator_key [OF col])
  with row(3) obtain a where a: "a \<in> set (accounts s)" "acc_email a = email"
    unfolding linkedEntries_def by blast
  from registered_email(1) [OF reg a(1)] a(2) have "toLowerCase email = email"
    by simp
  with find_email [OF removed(4)] have temail: "acc_email target = email" by simp
  have d: "distinct (map fst ?M)"
    by (simp add: distinct_delete row(1))
  have "isOwner [] (Some ?M) k \<longleftrightarrow> isOwner [] (Some m) k" for k
    using isCollaborator_not_isOwner [OF col] by (auto simp: isOwner_delete)
  with row(2) have one: "oneOwner ?M"
    by (simp only: oneOwner_iff [OF d] oneOwner_iff [OF row(1)])
  have keys: "fst ` set ?M = fst ` set m - {email}"
    by (simp add: key_set_delete)
  have l: "linkedEntries s' appId ?M"
    unfolding linkedEntries_def keys
  proof
    fix k assume "k \<in> fst ` set m - {email}"
    then have k: "k \<in> fst ` set m" "k \<noteq> email" by simp_all
    with row(3) obtain b where b: "b \<in> set (accounts s)" "acc_email b = k"
      "(acc_id b, appId) \<in> set (account_to_apps_map s)"
      unfolding linkedEntries_def by blast
    have "acc_id b \<noteq> acc_id target"
    proof
      assume "acc_id b = acc_id target"
      from same_id_same_account [OF reg b(1) tin this] b(2) temail k(2) show False by simp
    qed
    with b removed(8,10)
    show "\<exists>a \<in> set (accounts s'). acc_email a = k \<and> (acc_id a, appId) \<in> set (account_to_apps_map s')"
      by auto
  qed
  have other: "(a, app_id row) \<in> set (account_to_apps_map s')"
    if "app_id row \<noteq> appId" "(a, app_id row) \<in> set (account_to_apps_map s)" for row :: app and a
    using removed(8) that by simp
  have unassigned: "objectPrototype s' = []"
    using removed(13) consistent_unassigned [OF c] by simp
  show ?thesis
    by (rule consistent_rewritten [OF c removed(10) unassigned other d one l removed(9)])
qed

lemma addApp_consistent:
  assumes c: "consistent toLowerCase s"
    and run: "addApp accountId app uuid s = (Inr app', s')"
  shows "consistent toLowerCase s'"
  using run
proof (cases rule: addApp_resolved)
  case (1 account)
  let ?m = "[(acc_email account, \<lparr>cp_accountId = accountId, permission = Owner, isCurrentAccount = None\<rparr>)]"
  let ?row = "\<lparr>app_id = uuid, app_name = app_name app, collaborators = Some ?m\<rparr>"
  have reg: "registeredAccounts toLowerCase s'"
    using c by (simp add: consistent_def registeredAccounts_cong [OF 1(5)])
  have ain: "account \<in> set (accounts s')"
    using find_in_set [OF 1(1)] 1(5) by simp
  from registered_email(2) [OF reg ain]
  have m: "assignEntry (acc_email account)
      \<lparr>cp_accountId = accountId, permission = Owner, isCurrentAccount = None\<rparr> [] = ?m"
    by (simp add: assignEntry_def)
  have "linkedEntries s' uuid ?m"
    unfolding linkedEntries_def using ain by (auto simp: 1(4))
  then have new: "wellFormedApp s' ?row"
    by (simp add: wellFormedApp_def oneOwner_def)
  have old: "wellFormedApp s' row" if "row \<in> set (apps s)" for row
  proof -
    from c that have "wellFormedApp s row" by (simp add: consistent_def)
    then show ?thesis
      by (rule wellFormedApp_mono [OF _ 1(5)]) (simp add: 1(4))
  qed
  from new old have "\<forall>row \<in> set (apps s'). wellFormedApp s' row"
    by (auto simp: 1(3) m)
  with reg 1(8) consistent_unassigned [OF c] show ?thesis by (simp add: consistent_def)
qed

text \<open>
  \<open>addAccount\<close> keeps a store consistent when a second conversion to lower case changes
  nothing and the converted email is not \<^verbatim>\<open>__proto__\<close>.
\<close>

lemma addAccount_resolved:
  assumes "addAccount toLowerCase account uuid s = (Inr i, s')"
  shows "uuid \<notin> acc_id ` set (accounts s)"
    "toLowerCase (acc_email account) \<notin> acc_email ` set (accounts s)"
    "accounts s' = accounts s @ [\<lparr>acc_id = uuid, acc_name = acc_name account,
        acc_email = toLowerCase (acc_email account), gitHubId = gitHubId account\<rparr>]"
    "apps s' = apps s" "account_to_apps_map s' = account_to_apps_map s"
    "objectPrototype s' = objectPrototype s"
  using assms
  by (auto simp: addAccount_def Let_def getAccountByEmail_run poolQuery_def insertAccount_def
      split: option.splits if_splits)

lemma addAccount_consistent:
  assumes c: "consistent toLowerCase s"
    and run: "addAccount toLowerCase account uuid s = (Inr i, s')"
    and idem: "toLowerCase (toLowerCase (acc_email account)) = toLowerCase (acc_email account)"
    and named: "toLowerCase (acc_email account) \<noteq> ''__proto__''"
  shows "consistent toLowerCase s'"
proof -
  note r = addAccount_resolved [OF run]
  note reg = consistent_registered [OF c]
  with r(1,2) idem named have reg': "registeredAccounts toLowerCase s'"
    by (simp add: registeredAccounts_def r(3))
  have "wellFormedApp s' row" if "row \<in> set (apps s)" for row
  proof (cases "collaborators row")
    case None
    with c that show ?thesis by (auto simp: consistent_def wellFormedApp_def)
  next
    case (Some m)
    with c that have w: "distinct (map fst m)" "oneOwner m" "linkedEntries s (app_id row) m"
      by (auto simp: consistent_def wellFormedApp_def)
    from w(3) have "linkedEntries s' (app_id row) m"
      unfolding linkedEntries_def r(3,5) by auto
    with w(1,2) Some show ?thesis by (simp add: wellFormedApp_def)
  qed
  with reg' r(6) consistent_unassigned [OF c] show ?thesis by (simp add: consistent_def r(4))
qed

lemma perform_consistent:
  assumes c: "consistent toLowerCase s" and o: "issuedByOwner operation s"
    and run: "perform isPrototypePollutionKey toLowerCase operation s = (Inr u, s')"
  shows "consistent toLowerCase s'"
proof (cases operation)
  case (AddApp accountId app uuid)
  with run obtain app' where "addApp accountId app uuid s = (Inr app', s')"
    by (auto simp: perform_def await_def resolve_def split: prod.splits sum.splits)
  then show ?thesis by (rule addApp_consistent [OF c])
next
  case (TransferApp accountId appId email)
  with run have r: "transferApp isPrototypePollutionKey toLowerCase accountId appId email s = (Inr u, s')"
    by (simp add: perform_def)
  show ?thesis
  proof (rule transferApp_consistent [OF c r])
    fix account app
    assume "find (\<lambda>a. acc_id a = accountId) (accounts s) = Some account"
      "find (\<lambda>a. app_id a = appId) (apps s) = Some app"
    with o TransferApp show "isOwner [] (collaborators app) (acc_email account)"
      by (simp add: issuedByOwner_def consistent_unassigned [OF c])
  qed
next
  case (AddCollaborator accountId appId email)
  with run have "addCollaborator isPrototypePollutionKey toLowerCase accountId appId email s = (Inr u, s')"
    by (simp add: perform_def)
  then show ?thesis by (rule addCollaborator_consistent [OF c])
next
  case (RemoveCollaborator accountId appId email)
  with run have "removeCollaborator toLowerCase accountId appId email s = (Inr u, s')"
    by (simp add: perform_def)
  then show ?thesis by (rule removeCollaborator_consistent [OF c])
qed

lemma consistent_ownedOnce: "consistent toLowerCase s \<Longrightarrow> ownedOnce s"
  by (auto simp: consistent_def wellFormedApp_def ownedOnce_def list_all_iff split: option.splits)

lemma performAll_consistent:
  assumes "consistent toLowerCase s"
    and "performAll isPrototypePollutionKey toLowerCase operations s = Some states"
  shows "list_all (consistent toLowerCase) states \<and> length states = length operations"
  using assms
proof (induction operations arbitrary: s states)
  case Nil
  then show ?case by simp
next
  case (Cons operation operations)
  from Cons.prems(2) obtain u s' rest where
    o: "issuedByOwner operation s"
    and run: "perform isPrototypePollutionKey toLowerCase operation s = (Inr u, s')"
    and rest: "performAll isPrototypePollutionKey toLowerCase operations s' = Some rest"
    and states: "states = s' # rest"
    by (auto split: if_splits prod.splits sum.splits)
  have c': "consistent toLowerCase s'"
    by (rule perform_consistent [OF Cons.prems(1) o run])
  from Cons.IH [OF c' rest] c' states show ?case by simp
qed

lemma lower_stored: "asciiLowerCase ''a@x'' = ''a@x''" "asciiLowerCase ''c@x'' = ''c@x''"
  by code_simp+

lemma registeredStore_accounts:
  "registeredStore =
     emptyStore\<lparr>queries := 4, accounts :=
       [\<lparr>acc_id = ''1'', acc_name = ''A'', acc_email = ''a@x'', gitHubId = ''''\<rparr>,
        \<lparr>acc_id = ''2'', acc_name = ''B'', acc_email = ''b@x'', gitHubId = ''''\<rparr>]\<rparr>"
  by (simp add: registeredStore_def addAccount_def Let_def getAccountByEmail_run poolQuery_def
      insertAccount_def emptyStore_def lower_examples)

lemma consistent_registeredStore: "consistent asciiLowerCase registeredStore"
  by (simp add: registeredStore_accounts consistent_def registeredAccounts_def emptyStore_def
      lower_stored lower_examples)

lemma sharing_run:
  "map_option (map (map collaborators \<circ> apps))
     (performAll unsafeKey asciiLowerCase sharingOperations registeredStore) =
     Some [
       [Some [(''a@x'', \<lparr>cp_accountId = ''1'', permission = Owner, isCurrentAccount = None\<rparr>)]],
       [Some [(''a@x'', \<lparr>cp_accountId = ''1'', permission = Owner, isCurrentAccount = None\<rparr>),
              (''b@x'', \<lparr>cp_accountId = ''2'', permission = Collaborator, isCurrentAccount = None\<rparr>)]],
       [Some [(''a@x'', \<lparr>cp_accountId = ''1'', permission = Collaborator, isCurrentAccount = None\<rparr>),
              (''b@x'', \<lparr>cp_accountId = ''2'', permission = Owner, isCurrentAccount = None\<rparr>)]],
       [Some [(''b@x'', \<lparr>cp_accountId = ''2'', permission = Owner, isCurrentAccount = None\<rparr>)]]]"
  by code_simp

lemma consistent_sharedStore: "consistent asciiLowerCase sharedStore"
  by (simp add: consistent_def registeredAccounts_def wellFormedApp_def oneOwner_def
      linkedEntries_def sharedStore_def lower_stored lower_examples)

text \<open>
  Claim C1, as stated, fails, in two ways. In the shared app the second account is a
  Collaborator: its \<open>transferApp\<close> to the third account succeeds, demotes nobody (the
  requester is a Collaborator already) and adds a second Owner entry. And \<open>addAccount\<close>
  registers an account under the email \<^verbatim>\<open>__proto__\<close>: when that account creates an app,
  the assignment of its entry replaces the prototype of the map, and the app is stored with
  an empty map, without Owner.
\<close>

theorem transferApp_by_collaborator_second_owner:
  "consistent asciiLowerCase sharedStore
   \<and> ownedOnce sharedStore
   \<and> fst (transferApp unsafeKey asciiLowerCase ''2'' ''p'' ''c@x'' sharedStore) = Inr ()
   \<and> map collaborators (apps (snd (transferApp unsafeKey asciiLowerCase ''2'' ''p'' ''c@x'' sharedStore))) =
       [Some [(''a@x'', \<lparr>cp_accountId = ''1'', permission = Owner, isCurrentAccount = None\<rparr>),
              (''b@x'', \<lparr>cp_accountId = ''2'', permission = Collaborator, isCurrentAccount = None\<rparr>),
              (''c@x'', \<lparr>cp_accountId = ''3'', permission = Owner, isCurrentAccount = None\<rparr>)]]
   \<and> \<not> ownedOnce (snd (transferApp unsafeKey asciiLowerCase ''2'' ''p'' ''c@x'' sharedStore))
   \<and> fst (addAccount asciiLowerCase protoAccount ''5'' emptyStore) = Inr ''5''
   \<and> map acc_email (accounts (snd (addAccount asciiLowerCase protoAccount ''5'' emptyStore))) =
       [''__proto__'']
   \<and> map_sum id collaborators
       (fst (addApp ''5'' \<lparr>app_id = '''', app_name = ''App'', collaborators = None\<rparr> ''q''
          (snd (addAccount asciiLowerCase protoAccount ''5'' emptyStore)))) = Inr (Some [])
   \<and> map collaborators
       (apps (snd (addApp ''5'' \<lparr>app_id = '''', app_name = ''App'', collaborators = None\<rparr> ''q''
          (snd (addAccount asciiLowerCase protoAccount ''5'' emptyStore))))) = [Some []]
   \<and> \<not> ownedOnce
       (snd (addApp ''5'' \<lparr>app_id = '''', app_name = ''App'', collaborators = None\<rparr> ''q''
          (snd (addAccount asciiLowerCase protoAccount ''5'' emptyStore))))"
proof -
  have run: "fst (transferApp unsafeKey asciiLowerCase ''2'' ''p'' ''c@x'' sharedStore) = Inr ()
   \<and> map collaborators (apps (snd (transferApp unsafeKey asciiLowerCase ''2'' ''p'' ''c@x'' sharedStore))) =
       [Some [(''a@x'', \<lparr>cp_accountId = ''1'', permission = Owner, isCurrentAccount = None\<rparr>),
              (''b@x'', \<lparr>cp_accountId = ''2'', permission = Collaborator, isCurrentAccount = None\<rparr>),
              (''c@x'', \<lparr>cp_accountId = ''3'', permission = Owner, isCurrentAccount = None\<rparr>)]]
   \<and> \<not> ownedOnce (snd (transferApp unsafeKey asciiLowerCase ''2'' ''p'' ''c@x'' sharedStore))"
    by code_simp
  have proto: "fst (addAccount asciiLowerCase protoAccount ''5'' emptyStore) = Inr ''5''
   \<and> map acc_email (accounts (snd (addAccount asciiLowerCase protoAccount ''5'' emptyStore))) =
       [''__proto__'']
   \<and> map_sum id collaborators
       (fst (addApp ''5'' \<lparr>app_id = '''', app_name = ''App'', collaborators = None\<rparr> ''q''
          (snd (addAccount asciiLowerCase protoAccount ''5'' emptyStore)))) = Inr (Some [])
   \<and> map collaborators
       (apps (snd (addApp ''5'' \<lparr>app_id = '''', app_name = ''App'', collaborators = None\<rparr> ''q''
          (snd (addAccount asciiLowerCase protoAccount ''5'' emptyStore))))) = [Some []]
   \<and> \<not> ownedOnce
       (snd (addApp ''5'' \<lparr>app_id = '''', app_name = ''App'', collaborators = None\<rparr> ''q''
          (snd (addAccount asciiLowerCase protoAccount ''5'' emptyStore))))"
    by code_simp
  from consistent_sharedStore consistent_ownedOnce [OF consistent_sharedStore] run proto
  show ?thesis by simp
qed

text \<open>
  Claim C1, amended. From a consistent store (no account has the email \<^verbatim>\<open>__proto__\<close>, and
  no permission has been assigned to a member of \<^verbatim>\<open>Object.prototype\<close>), after each
  operation of a sequence of \<open>addApp\<close>, \<open>transferApp\<close>, \<open>addCollaborator\<close> and
  \<open>removeCollaborator\<close> that all succeed, and whose transfers are issued by the account
  holding the Owner entry, every app has exactly one Owner entry.
\<close>

theorem one_owner_after_each_operation:
  assumes "consistent toLowerCase s"
    and "performAll isPrototypePollutionKey toLowerCase operations s = Some states"
  shows "length states = length operations \<and> list_all ownedOnce states"
proof -
  from performAll_consistent [OF assms]
  have "list_all (consistent toLowerCase) states" and l: "length states = length operations"
    by simp_all
  then have "list_all ownedOnce states"
    by (auto simp: list_all_iff intro: consistent_ownedOnce)
  with l show ?thesis by simp
qed

theorem one_owner_after_each_operation_witness:
  "consistent asciiLowerCase registeredStore
   \<and> map_option (map (map collaborators \<circ> apps))
        (performAll unsafeKey asciiLowerCase sharingOperations registeredStore) =
     Some [
       [Some [(''a@x'', \<lparr>cp_accountId = ''1'', permission = Owner, isCurrentAccount = None\<rparr>)]],
       [Some [(''a@x'', \<lparr>cp_accountId = ''1'', permission = Owner, isCurrentAccount = None\<rparr>),
              (''b@x'', \<lparr>cp_accountId = ''2'', permission = Collaborator, isCurrentAccount = None\<rparr>)]],
       [Some [(''a@x'', \<lparr>cp_accountId = ''1'', permission = Collaborator, isCurrentAccount = None\<rparr>),
              (''b@x'', \<lparr>cp_accountId = ''2'', permission = Owner, isCurrentAccount = None\<rparr>)]],
       [Some [(''b@x'', \<lparr>cp_accountId = ''2'', permission = Owner, isCurrentAccount = None\<rparr>)]]]
   \<and> map_option length (performAll unsafeKey asciiLowerCase sharingOperations registeredStore) =
       Some 4
   \<and> map_option (list_all ownedOnce)
       (performAll unsafeKey asciiLowerCase sharingOperations registeredStore) = Some True"
proof -
  from sharing_run obtain states where
    run: "performAll unsafeKey asciiLowerCase sharingOperations registeredStore = Some states"
    by (cases "performAll unsafeKey asciiLowerCase sharingOperations registeredStore") simp_all
  from one_owner_after_each_operation [OF consistent_registeredStore run]
  have "length states = 4" "list_all ownedOnce states"
    by (simp_all add: sharingOperations_def)
  with run sharing_run consistent_registeredStore show ?thesis by simp
qed

subsection \<open>Labels and rollout of committed packages\<close>

lemma getDeployment_run:
  "getDeployment accountId appId deploymentId s =
     (case fst (getApp accountId appId s) of
        Inl e \<Rightarrow> (Inl e, snd (getApp accountId appId s))
      | Inr app \<Rightarrow>
          ((case find (\<lambda>d. dep_id d = deploymentId) (deployments s) of
              None \<Rightarrow> Inl (StorageError NotFound)
            | Some deployment \<Rightarrow> Inr deployment),
           s\<lparr>queries := Suc (Suc (Suc (queries s)))\<rparr>))"
  by (simp add: getDeployment_def getApp_run await_def resolve_def reject_def selectRows_def
      poolQuery_def split: option.splits)

lemma getDeployment_resolved:
  assumes "getDeployment accountId appId deploymentId s = (Inr deployment, s1)"
  shows "s1 = s\<lparr>queries := Suc (Suc (Suc (queries s)))\<rparr>"
  using assms by (auto simp: getDeployment_run split: sum.splits option.splits)

lemma clearRollout_None [simp]: "clearRollout None p = p"
  by (simp add: clearRollout_def)

lemma clearLatestRollout_run:
  "clearLatestRollout deploymentId s =
     (Inr (), s\<lparr>packages := map (clearRollout (latestPackage deploymentId (packages s))) (packages s)\<rparr>)"
proof (cases "latestPackage deploymentId (packages s)")
  case None
  then show ?thesis by (simp add: clearLatestRollout_def map_idI)
next
  case (Some l)
  then show ?thesis by (simp add: clearLatestRollout_def clearRollout_def)
qed

lemma clearRollout_fields [simp]:
  "pkg_deploymentId (clearRollout latest p) = pkg_deploymentId p"
  "pkg_id (clearRollout latest p) = pkg_id p"
  "label (clearRollout latest p) = label p"
  "uploadTime (clearRollout latest p) = uploadTime p"
  by (simp_all add: clearRollout_def split: option.splits)

lemma filter_map_clearRollout:
  "filter (\<lambda>p. pkg_deploymentId p = d) (map (clearRollout latest) rows) =
     map (clearRollout latest) (filter (\<lambda>p. pkg_deploymentId p = d) rows)"
  by (induction rows) simp_all

lemma filter_comp_clearRollout [simp]:
  "filter ((\<lambda>p. pkg_deploymentId p = d) \<circ> clearRollout latest) rows =
     filter (\<lambda>p. pkg_deploymentId p = d) rows"
  by (induction rows) simp_all

lemma commitPackage_resolved:
  assumes run: "commitPackage accountId appId deploymentId appPackage uuid s = (Inr committed, s')"
  shows "committed = appPackage\<lparr>label :=
            Some (''v'' @ numberToString (Suc (length (deploymentPackages deploymentId s))))\<rparr>"
    and "uuid \<notin> pkg_id ` set (packages s)"
    and "packages s' = map (clearRollout (latestPackage deploymentId (packages s))) (packages s) @
          [\<lparr>description = description appPackage,
            isDisabled = Some (isDisabled appPackage = Some True),
            isMandatory = Some (isMandatory appPackage = Some True),
            rollout = rollout appPackage,
            appVersion = appVersion appPackage,
            packageHash = packageHash appPackage,
            blobUrl = blobUrl appPackage,
            pkg_size = pkg_size appPackage,
            manifestBlobUrl = manifestBlobUrl appPackage,
            releaseMethod = releaseMethod appPackage,
            uploadTime = uploadTime appPackage,
            label = Some (''v'' @ numberToString (Suc (length (deploymentPackages deploymentId s)))),
            originalLabel = originalLabel appPackage,
            originalDeployment = originalDeployment appPackage,
            pkg_id = uuid,
            pkg_deploymentId = deploymentId\<rparr>]"
proof -
  obtain r1 s1 where g: "getDeployment accountId appId deploymentId s = (r1, s1)"
    by (cases "getDeployment accountId appId deploymentId s")
  with run obtain deployment where r1: "r1 = Inr deployment"
    by (cases r1) (auto simp: commitPackage_def await_def)
  note s1 = getDeployment_resolved [OF g [unfolded r1]]
  let ?cleared = "map (clearRollout (latestPackage deploymentId (packages s))) (packages s)"
  let ?labelled = "appPackage\<lparr>label :=
      Some (''v'' @ numberToString (Suc (length (deploymentPackages deploymentId s))))\<rparr>"
  let ?row = "\<lparr>description = description appPackage,
            isDisabled = Some (isDisabled appPackage = Some True),
            isMandatory = Some (isMandatory appPackage = Some True),
            rollout = rollout appPackage,
            appVersion = appVersion appPackage,
            packageHash = packageHash appPackage,
            blobUrl = blobUrl appPackage,
            pkg_size = pkg_size appPackage,
            manifestBlobUrl = manifestBlobUrl appPackage,
            releaseMethod = releaseMethod appPackage,
            uploadTime = uploadTime appPackage,
            label = Some (''v'' @ numberToString (Suc (length (deploymentPackages deploymentId s)))),
            originalLabel = originalLabel appPackage,
            originalDeployment = originalDeployment appPackage,
            pkg_id = uuid,
            pkg_deploymentId = deploymentId\<rparr>"
  let ?s2 = "s\<lparr>queries := Suc (Suc (Suc (Suc (Suc (Suc (queries s)))))), packages := ?cleared\<rparr>"
  have step: "commitPackage accountId appId deploymentId appPackage uuid s =
      (if uuid \<in> pkg_id ` set (packages s) then (Inl QueryError, ?s2)
       else (Inr ?labelled, ?s2\<lparr>packages := ?cleared @ [?row]\<rparr>))"
    by (simp add: commitPackage_def await_def resolve_def poolQuery_def selectRows_def g r1 s1
        clearLatestRollout_run deploymentPackages_def Let_def insertPackage_def image_image)
  show "committed = ?labelled"
    using run unfolding step by (simp split: if_splits)
  show "uuid \<notin> pkg_id ` set (packages s)"
    using run unfolding step by (simp split: if_splits)
  show "packages s' = ?cleared @ [?row]"
    using run unfolding step by (auto split: if_splits)
qed

lemma latest_in_and_greatest:
  fixes p :: packageRow
  shows "foldl (\<lambda>best q. if uploadTime best < uploadTime q then q else best) p ps \<in> set (p # ps) \<and>
   (\<forall>q \<in> set (p # ps).
      uploadTime q \<le> uploadTime (foldl (\<lambda>best q. if uploadTime best < uploadTime q then q else best) p ps))"
proof (induction ps arbitrary: p)
  case Nil
  show ?case by simp
next
  case (Cons q ps)
  let ?pick = "\<lambda>best q. if uploadTime best < uploadTime (q :: packageRow) then q else best"
  let ?b = "if uploadTime p < uploadTime q then q else p :: packageRow"
  from Cons.IH [of ?b]
  have "foldl ?pick ?b ps \<in> set (?b # ps)"
    and ge: "\<forall>x \<in> set (?b # ps). uploadTime x \<le> uploadTime (foldl ?pick ?b ps)"
    by blast+
  then have 1: "foldl ?pick ?b ps \<in> set (p # q # ps)" by (auto split: if_splits)
  from ge have b: "uploadTime ?b \<le> uploadTime (foldl ?pick ?b ps)" by simp
  have "uploadTime p \<le> uploadTime ?b" "uploadTime q \<le> uploadTime ?b" by simp_all
  with b have "uploadTime p \<le> uploadTime (foldl ?pick ?b ps)"
    "uploadTime q \<le> uploadTime (foldl ?pick ?b ps)"
    by linarith+
  with ge have 2: "\<forall>x \<in> set (p # q # ps). uploadTime x \<le> uploadTime (foldl ?pick ?b ps)"
    by simp
  from 1 2 show ?case by simp
qed

lemma latestPackage_greatest:
  assumes "latestPackage deploymentId rows = Some latest"
  shows "latest \<in> set (filter (\<lambda>p. pkg_deploymentId p = deploymentId) rows)"
    and "\<forall>q \<in> set (filter (\<lambda>p. pkg_deploymentId p = deploymentId) rows).
           uploadTime q \<le> uploadTime latest"
proof -
  from assms obtain p ps where f: "filter (\<lambda>p. pkg_deploymentId p = deploymentId) rows = p # ps"
    and l: "latest = foldl (\<lambda>best q. if uploadTime best < uploadTime q then q else best) p ps"
    by (auto simp: latestPackage_def split: list.splits)
  from latest_in_and_greatest [of p ps]
  show "latest \<in> set (filter (\<lambda>p. pkg_deploymentId p = deploymentId) rows)"
    and "\<forall>q \<in> set (filter (\<lambda>p. pkg_deploymentId p = deploymentId) rows).
           uploadTime q \<le> uploadTime latest"
    unfolding f l by blast+
qed

lemma latest_of_increasing:
  fixes p :: packageRow
  assumes "sorted_wrt (<) (map uploadTime (p # ps))"
  shows "foldl (\<lambda>best q. if uploadTime best < uploadTime q then q else best) p ps = last (p # ps)"
  using assms
proof (induction ps arbitrary: p)
  case Nil
  show ?case by simp
next
  case (Cons q ps)
  from Cons.prems have "uploadTime p < uploadTime q" and "sorted_wrt (<) (map uploadTime (q # ps))"
    by simp_all
  with Cons.IH [of q] show ?case by simp
qed

lemma latestPackage_of_increasing:
  assumes "sorted_wrt (<) (map uploadTime (deploymentPackages deploymentId s))"
    and "deploymentPackages deploymentId s \<noteq> []"
  shows "latestPackage deploymentId (packages s) = Some (last (deploymentPackages deploymentId s))"
proof -
  from assms(2) obtain p ps where f: "deploymentPackages deploymentId s = p # ps"
    by (cases "deploymentPackages deploymentId s") simp_all
  with assms(1) latest_of_increasing [of p ps] show ?thesis
    by (simp add: latestPackage_def deploymentPackages_def)
qed

lemma commitPackage_rows:
  assumes run: "commitPackage accountId appId deploymentId appPackage uuid s = (Inr committed, s')"
  shows "\<exists>row. deploymentPackages deploymentId s' =
           map (clearRollout (latestPackage deploymentId (packages s)))
             (deploymentPackages deploymentId s) @ [row] \<and>
         label row = Some (''v'' @ numberToString (Suc (length (deploymentPackages deploymentId s)))) \<and>
         uploadTime row = uploadTime appPackage \<and> rollout row = rollout appPackage"
  by (simp add: commitPackage_resolved(3) [OF run] deploymentPackages_def filter_map_clearRollout)

lemma labelsFrom_Suc: "labelsFrom i (Suc n) = Some (''v'' @ numberToString i) # labelsFrom (Suc i) n"
  by (simp add: labelsFrom_def upt_conv_Cons del: upt_Suc)

lemma labelsFrom_0 [simp]: "labelsFrom i 0 = []"
  by (simp add: labelsFrom_def)

lemma rollout_clearRollout:
  "rollout p = None \<Longrightarrow> rollout (clearRollout latest p) = None"
  by (simp add: clearRollout_def split: option.splits)

lemma rollout_clearRollout_self: "rollout (clearRollout (Some p) p) = None"
  by (simp add: clearRollout_def)

lemma cleared_all_None:
  assumes "\<forall>p \<in> set (butlast rows). rollout p = None" and "rows \<noteq> []"
  shows "\<forall>p \<in> set (map (clearRollout (Some (last rows))) rows). rollout p = None"
proof -
  from assms(2) have rows: "rows = butlast rows @ [last rows]" by simp
  have "\<forall>p \<in> set (map (clearRollout (Some (last rows))) (butlast rows @ [last rows])). rollout p = None"
    using assms(1) by (simp add: rollout_clearRollout rollout_clearRollout_self)
  with rows show ?thesis by simp
qed

lemma commitPackage_stagedOnlyLast:
  assumes run: "commitPackage accountId appId deploymentId appPackage uuid s = (Inr committed, s')"
    and inv: "stagedOnlyLast deploymentId s"
    and later: "\<forall>p \<in> set (deploymentPackages deploymentId s). uploadTime p < uploadTime appPackage"
  shows "stagedOnlyLast deploymentId s'"
proof -
  let ?rows = "deploymentPackages deploymentId s"
  let ?latest = "latestPackage deploymentId (packages s)"
  from commitPackage_rows [OF run] obtain row where
    rows': "deploymentPackages deploymentId s' = map (clearRollout ?latest) ?rows @ [row]"
    and t: "uploadTime row = uploadTime appPackage"
    by blast
  from inv have sorted: "sorted_wrt (<) (map uploadTime ?rows)"
    and staged: "\<forall>p \<in> set (butlast ?rows). rollout p = None"
    by (simp_all add: stagedOnlyLast_def)
  have times: "map uploadTime (map (clearRollout ?latest) ?rows) = map uploadTime ?rows"
    by simp
  have 1: "sorted_wrt (<) (map uploadTime (deploymentPackages deploymentId s'))"
    using sorted later by (simp add: rows' t sorted_wrt_append comp_def)
  have 2: "\<forall>p \<in> set (map (clearRollout ?latest) ?rows). rollout p = None"
  proof (cases "?rows = []")
    case True
    then show ?thesis by simp
  next
    case False
    from latestPackage_of_increasing [OF sorted False] cleared_all_None [OF staged False]
    show ?thesis by simp
  qed
  from 1 2 show ?thesis by (simp add: stagedOnlyLast_def rows')
qed

lemma commitPackages_resolved:
  assumes "commitPackages accountId appId deploymentId commits s = (Inr committed, s')"
  shows "map label (deploymentPackages deploymentId s') =
           map label (deploymentPackages deploymentId s) @
           labelsFrom (Suc (length (deploymentPackages deploymentId s))) (length commits)
    \<and> map label committed =
           labelsFrom (Suc (length (deploymentPackages deploymentId s))) (length commits)
    \<and> (stagedOnlyLast deploymentId s \<and>
         sorted_wrt (<) (map uploadTime (deploymentPackages deploymentId s) @
                         map (uploadTime \<circ> fst) commits) \<longrightarrow>
         stagedOnlyLast deploymentId s')"
  using assms
proof (induction commits arbitrary: s committed)
  case Nil
  then show ?case by (simp add: resolve_def)
next
  case (Cons c commits)
  obtain appPackage uuid where c: "c = (appPackage, uuid)" by (cases c)
  from Cons.prems obtain first s1 others where
    one: "commitPackage accountId appId deploymentId appPackage uuid s = (Inr first, s1)"
    and rest: "commitPackages accountId appId deploymentId commits s1 = (Inr others, s')"
    and committed: "committed = first # others"
    by (auto simp: c await_def resolve_def split: prod.splits sum.splits)
  let ?rows = "deploymentPackages deploymentId s"
  from commitPackage_rows [OF one] obtain row where
    rows1: "deploymentPackages deploymentId s1 =
      map (clearRollout (latestPackage deploymentId (packages s))) ?rows @ [row]"
    and lab: "label row = Some (''v'' @ numberToString (Suc (length ?rows)))"
    and t: "uploadTime row = uploadTime appPackage"
    by blast
  have len: "length (deploymentPackages deploymentId s1) = Suc (length ?rows)"
    by (simp add: rows1)
  have labs: "map label (deploymentPackages deploymentId s1) =
      map label ?rows @ [Some (''v'' @ numberToString (Suc (length ?rows)))]"
    by (simp add: rows1 lab)
  have times: "map uploadTime (deploymentPackages deploymentId s1) =
      map uploadTime ?rows @ [uploadTime appPackage]"
    by (simp add: rows1 t)
  have flab: "label first = Some (''v'' @ numberToString (Suc (length ?rows)))"
    by (simp add: commitPackage_resolved(1) [OF one])
  note IH = Cons.IH [OF rest]
  have 1: "map label (deploymentPackages deploymentId s') =
      map label ?rows @ labelsFrom (Suc (length ?rows)) (length (c # commits))"
    using IH by (simp add: len labs labelsFrom_Suc)
  have 2: "map label committed = labelsFrom (Suc (length ?rows)) (length (c # commits))"
    using IH by (simp add: committed len flab labelsFrom_Suc)
  have 3: "stagedOnlyLast deploymentId s'"
    if inv: "stagedOnlyLast deploymentId s"
      and sorted: "sorted_wrt (<) (map uploadTime ?rows @ map (uploadTime \<circ> fst) (c # commits))"
  proof -
    from sorted have later: "\<forall>p \<in> set ?rows. uploadTime p < uploadTime appPackage"
      by (simp add: c sorted_wrt_append)
    have inv1: "stagedOnlyLast deploymentId s1"
      by (rule commitPackage_stagedOnlyLast [OF one inv later])
    from sorted have "sorted_wrt (<) (map uploadTime (deploymentPackages deploymentId s1) @
        map (uploadTime \<circ> fst) commits)"
      by (simp add: times c)
    with IH inv1 show ?thesis by blast
  qed
  from 1 2 3 show ?case by blast
qed

text \<open>
  Claim C2, as stated, fails: \<open>commitPackage\<close> clears the rollout of the row with the
  greatest upload time, and the upload time is the caller's. After three commits with
  decreasing upload times, each with a rollout, the first row (still the latest by upload
  time) has been cleared twice and the second and third rows both keep their rollout.
\<close>

theorem commitPackages_backdated_two_rollouts:
  "map_sum id (map label) (fst (commitPackages ''1'' ''p'' ''d'' backdatedCommits sharedStore)) =
     Inr [Some ''v1'', Some ''v2'', Some ''v3'']
   \<and> map uploadTime (deploymentPackages ''d''
         (snd (commitPackages ''1'' ''p'' ''d'' backdatedCommits sharedStore))) = [300, 200, 100]
   \<and> map rollout (deploymentPackages ''d''
         (snd (commitPackages ''1'' ''p'' ''d'' backdatedCommits sharedStore))) =
       [None, Some 30, Some 20]
   \<and> length (filter (\<lambda>p. rollout p \<noteq> None) (deploymentPackages ''d''
         (snd (commitPackages ''1'' ''p'' ''d'' backdatedCommits sharedStore)))) = 2"
  by code_simp

text \<open>
  Claim C2, amended. After \<open>N\<close> successful commits to a deployment that had no package,
  the rows carry the labels \<^verbatim>\<open>v1\<close> to \<^verbatim>\<open>vN\<close> in commit order, as do the packages
  returned. When the upload times of the commits increase strictly, at most one row has a
  rollout, and it is the last. Each commit labels its package with the count of the
  deployment's rows plus one and clears the rollout of the latest row, which is a row of the
  deployment with the greatest upload time.
\<close>

theorem commitPackages_labels_and_rollout:
  assumes "deploymentPackages deploymentId s = []"
    and "commitPackages accountId appId deploymentId commits s = (Inr committed, s')"
  shows "map label (deploymentPackages deploymentId s') = labelsFrom 1 (length commits)
    \<and> map label committed = labelsFrom 1 (length commits)
    \<and> (sorted_wrt (<) (map (uploadTime \<circ> fst) commits) \<longrightarrow>
         length (filter (\<lambda>p. rollout p \<noteq> None) (deploymentPackages deploymentId s')) \<le> 1 \<and>
         (\<forall>p \<in> set (butlast (deploymentPackages deploymentId s')). rollout p = None))
    \<and> (\<forall>appPackage uuid s1 r s2 latest.
          commitPackage accountId appId deploymentId appPackage uuid s1 = (Inr r, s2) \<and>
          latestPackage deploymentId (packages s1) = Some latest \<longrightarrow>
            latest \<in> set (deploymentPackages deploymentId s1) \<and>
            (\<forall>q \<in> set (deploymentPackages deploymentId s1). uploadTime q \<le> uploadTime latest) \<and>
            (\<forall>q \<in> set (packages s2). pkg_id q = pkg_id latest \<longrightarrow> rollout q = None) \<and>
            label r = Some (''v'' @ numberToString (length (deploymentPackages deploymentId s1) + 1)))"
proof -
  note r = commitPackages_resolved [OF assms(2)]
  have 1: "map label (deploymentPackages deploymentId s') = labelsFrom 1 (length commits)"
    and 2: "map label committed = labelsFrom 1 (length commits)"
    using r by (simp_all add: assms(1))
  have 3: "length (filter (\<lambda>p. rollout p \<noteq> None) (deploymentPackages deploymentId s')) \<le> 1 \<and>
         (\<forall>p \<in> set (butlast (deploymentPackages deploymentId s')). rollout p = None)"
    if "sorted_wrt (<) (map (uploadTime \<circ> fst) commits)"
  proof -
    let ?rows = "deploymentPackages deploymentId s'"
    have "stagedOnlyLast deploymentId s"
      by (simp add: stagedOnlyLast_def assms(1))
    with r that have "stagedOnlyLast deploymentId s'"
      by (simp add: assms(1))
    then have none: "\<forall>p \<in> set (butlast ?rows). rollout p = None"
      by (simp add: stagedOnlyLast_def)
    have "length (filter (\<lambda>p. rollout p \<noteq> None) ?rows) \<le> 1"
    proof (cases "?rows = []")
      case True
      then show ?thesis by simp
    next
      case False
      then have "?rows = butlast ?rows @ [last ?rows]" by simp
      then have "filter (\<lambda>p. rollout p \<noteq> None) ?rows =
          filter (\<lambda>p. rollout p \<noteq> None) (butlast ?rows) @ filter (\<lambda>p. rollout p \<noteq> None) [last ?rows]"
        by (metis filter_append)
      moreover from none have "filter (\<lambda>p. rollout p \<noteq> None) (butlast ?rows) = []"
        by (simp add: filter_empty_conv)
      ultimately show ?thesis by simp
    qed
    with none show ?thesis by simp
  qed
  have 4: "latest \<in> set (deploymentPackages deploymentId s1) \<and>
            (\<forall>q \<in> set (deploymentPackages deploymentId s1). uploadTime q \<le> uploadTime latest) \<and>
            (\<forall>q \<in> set (packages s2). pkg_id q = pkg_id latest \<longrightarrow> rollout q = None) \<and>
            label r = Some (''v'' @ numberToString (length (deploymentPackages deploymentId s1) + 1))"
    if one: "commitPackage accountId appId deploymentId appPackage uuid s1 = (Inr r, s2)"
      and l: "latestPackage deploymentId (packages s1) = Some latest"
    for appPackage uuid s1 r s2 latest
  proof -
    note g = latestPackage_greatest [OF l]
    note c = commitPackage_resolved [OF one]
    from g(1) have lin: "latest \<in> set (packages s1)" by simp
    with c(2) have neq: "uuid \<noteq> pkg_id latest" by auto
    have cleared: "\<forall>q \<in> set (packages s2). pkg_id q = pkg_id latest \<longrightarrow> rollout q = None"
      unfolding c(3) l using neq by (auto simp: clearRollout_def)
    from g cleared c(1) show ?thesis
      by (simp add: deploymentPackages_def)
  qed
  from 1 2 3 4 show ?thesis by blast
qed

theorem commitPackages_labels_and_rollout_witness:
  "deploymentPackages ''d'' sharedStore = []
   \<and> map_sum id (map label) (fst (commitPackages ''1'' ''p'' ''d'' stagedCommits sharedStore)) =
       Inr [Some ''v1'', Some ''v2'', Some ''v3'']
   \<and> map label (deploymentPackages ''d''
         (snd (commitPackages ''1'' ''p'' ''d'' stagedCommits sharedStore))) =
       [Some ''v1'', Some ''v2'', Some ''v3'']
   \<and> map rollout (deploymentPackages ''d''
         (snd (commitPackages ''1'' ''p'' ''d'' stagedCommits sharedStore))) = [None, None, Some 20]
   \<and> length (filter (\<lambda>p. rollout p \<noteq> None) (deploymentPackages ''d''
         (snd (commitPackages ''1'' ''p'' ''d'' stagedCommits sharedStore)))) \<le> 1"
proof -
  have e: "deploymentPackages ''d'' sharedStore = []"
    by (simp add: deploymentPackages_def sharedStore_def)
  have ev: "map_sum id (map label) (fst (commitPackages ''1'' ''p'' ''d'' stagedCommits sharedStore)) =
       Inr [Some ''v1'', Some ''v2'', Some ''v3'']"
    "map rollout (deploymentPackages ''d''
         (snd (commitPackages ''1'' ''p'' ''d'' stagedCommits sharedStore))) = [None, None, Some 20]"
    by code_simp+
  from ev(1) obtain committed where
    "fst (commitPackages ''1'' ''p'' ''d'' stagedCommits sharedStore) = Inr committed"
    by (cases "fst (commitPackages ''1'' ''p'' ''d'' stagedCommits sharedStore)") simp_all
  then have run: "commitPackages ''1'' ''p'' ''d'' stagedCommits sharedStore =
      (Inr committed, snd (commitPackages ''1'' ''p'' ''d'' stagedCommits sharedStore))"
    by (simp add: prod_eq_iff)
  have sorted: "sorted_wrt (<) (map (uploadTime \<circ> fst) stagedCommits)"
    by (simp add: stagedCommits_def examplePackage_def)
  have n: "labelsFrom 1 (length stagedCommits) = [Some ''v1'', Some ''v2'', Some ''v3'']"
    by code_simp
  from commitPackages_labels_and_rollout [OF e run] sorted
  have "map label (deploymentPackages ''d''
         (snd (commitPackages ''1'' ''p'' ''d'' stagedCommits sharedStore))) =
       labelsFrom 1 (length stagedCommits)"
    and "length (filter (\<lambda>p. rollout p \<noteq> None) (deploymentPackages ''d''
         (snd (commitPackages ''1'' ''p'' ''d'' stagedCommits sharedStore)))) \<le> 1"
    by blast+
  with e ev n show ?thesis by simp
qed

subsection \<open>Access keys\<close>

lemma set_accessKeyJoin:
  "set (accessKeyJoin accessKey s) =
     {b \<in> set (access_key_to_account_map s).
        \<exists>a \<in> set (access_keys s). key_name a = accessKey \<and> map_accessKeyId b = key_id a}"
  by (auto simp: accessKeyJoin_def)

lemma accessKeyJoin_queries [simp]:
  "accessKeyJoin accessKey (s\<lparr>queries := n\<rparr>) = accessKeyJoin accessKey s"
  by (simp add: accessKeyJoin_def)

lemma getAccountIdFromAccessKey_sameRows:
  "sameRows s (snd (getAccountIdFromAccessKey now accessKey s))"
  by (simp add: getAccountIdFromAccessKey_def promise_defs sameRows_def split: list.splits)

lemma getAccountIdFromAccessKey_first:
  assumes "accessKeyJoin accessKey s = data # rest"
  shows "fst (getAccountIdFromAccessKey now accessKey s) =
     (if (case map_expires data of None \<Rightarrow> 0 | Some t \<Rightarrow> t) \<le> now
      then Inl (StorageError Expired) else Inr (map_accountId data))"
  using assms by (simp add: getAccountIdFromAccessKey_def promise_defs)

lemma getAccountIdFromAccessKey_none:
  assumes "accessKeyJoin accessKey s = []"
  shows "fst (getAccountIdFromAccessKey now accessKey s) = Inl (StorageError NotFound)"
  using assms by (simp add: getAccountIdFromAccessKey_def promise_defs)

text \<open>
  Claim C4. Resolving an access key: when no key of that name has a mapping to an account
  (no such key, or a key without mapping) the method rejects with \<open>NotFound\<close>. When a
  key of that name has a mapping, one such mapping decides: an expiry at or before the
  current time rejects with \<open>Expired\<close>, a later expiry resolves to the account id of the
  mapping; when the name has one key id and that key one mapping, it is that mapping. The
  mapping that decides is the first row of the join. \<open>Expired\<close> is only ever the answer
  when a key of that name has a mapping, and the method changes no row.
\<close>

theorem getAccountIdFromAccessKey_outcomes:
  "((\<forall>a \<in> set (access_keys s). key_name a = accessKey \<longrightarrow>
       (\<forall>b \<in> set (access_key_to_account_map s). map_accessKeyId b \<noteq> key_id a)) \<longrightarrow>
     fst (getAccountIdFromAccessKey now accessKey s) = Inl (StorageError NotFound))
   \<and> ((\<exists>a \<in> set (access_keys s). key_name a = accessKey \<and>
          (\<exists>b \<in> set (access_key_to_account_map s). map_accessKeyId b = key_id a)) \<longrightarrow>
        (\<exists>a \<in> set (access_keys s). \<exists>b \<in> set (access_key_to_account_map s).
           key_name a = accessKey \<and> map_accessKeyId b = key_id a \<and>
           fst (getAccountIdFromAccessKey now accessKey s) =
             (if (case map_expires b of None \<Rightarrow> 0 | Some t \<Rightarrow> t) \<le> now
              then Inl (StorageError Expired) else Inr (map_accountId b))))
   \<and> (\<forall>a b t. a \<in> set (access_keys s) \<and> key_name a = accessKey \<and>
         b \<in> set (access_key_to_account_map s) \<and> map_accessKeyId b = key_id a \<and>
         map_expires b = Some t \<and>
         (\<forall>a' \<in> set (access_keys s). key_name a' = accessKey \<longrightarrow> key_id a' = key_id a) \<and>
         (\<forall>b' \<in> set (access_key_to_account_map s). map_accessKeyId b' = key_id a \<longrightarrow> b' = b) \<longrightarrow>
         (t \<le> now \<longrightarrow> fst (getAccountIdFromAccessKey now accessKey s) = Inl (StorageError Expired)) \<and>
         (now < t \<longrightarrow> fst (getAccountIdFromAccessKey now accessKey s) = Inr (map_accountId b)))
   \<and> (\<forall>data rest t. accessKeyJoin accessKey s = data # rest \<and> map_expires data = Some t \<longrightarrow>
         data \<in> set (access_key_to_account_map s) \<and>
         (\<exists>a \<in> set (access_keys s). key_name a = accessKey \<and> map_accessKeyId data = key_id a) \<and>
         (t \<le> now \<longrightarrow> fst (getAccountIdFromAccessKey now accessKey s) = Inl (StorageError Expired)) \<and>
         (now < t \<longrightarrow> fst (getAccountIdFromAccessKey now accessKey s) = Inr (map_accountId data)))
   \<and> (fst (getAccountIdFromAccessKey now accessKey s) = Inl (StorageError Expired) \<longrightarrow>
        (\<exists>a \<in> set (access_keys s). key_name a = accessKey \<and>
           (\<exists>b \<in> set (access_key_to_account_map s). map_accessKeyId b = key_id a)))
   \<and> sameRows s (snd (getAccountIdFromAccessKey now accessKey s))"
proof -
  let ?result = "fst (getAccountIdFromAccessKey now accessKey s)"
  have mapped: "\<exists>a \<in> set (access_keys s). key_name a = accessKey \<and>
      (\<exists>b \<in> set (access_key_to_account_map s). map_accessKeyId b = key_id a)"
    if "accessKeyJoin accessKey s = data # rest" for data rest
  proof -
    from that have "data \<in> set (accessKeyJoin accessKey s)" by simp
    then show ?thesis unfolding set_accessKeyJoin by blast
  qed
  have nf: "?result = Inl (StorageError NotFound)"
    if "\<forall>a \<in> set (access_keys s). key_name a = accessKey \<longrightarrow>
          (\<forall>b \<in> set (access_key_to_account_map s). map_accessKeyId b \<noteq> key_id a)"
  proof -
    from that have "set (accessKeyJoin accessKey s) = {}"
      unfolding set_accessKeyJoin by blast
    then have "accessKeyJoin accessKey s = []" by simp
    then show ?thesis by (rule getAccountIdFromAccessKey_none)
  qed
  have some: "\<exists>a \<in> set (access_keys s). \<exists>b \<in> set (access_key_to_account_map s).
           key_name a = accessKey \<and> map_accessKeyId b = key_id a \<and>
           ?result =
             (if (case map_expires b of None \<Rightarrow> 0 | Some t \<Rightarrow> t) \<le> now
              then Inl (StorageError Expired) else Inr (map_accountId b))"
    if "\<exists>a \<in> set (access_keys s). key_name a = accessKey \<and>
          (\<exists>b \<in> set (access_key_to_account_map s). map_accessKeyId b = key_id a)"
  proof -
    from that have "set (accessKeyJoin accessKey s) \<noteq> {}"
      unfolding set_accessKeyJoin by blast
    then obtain data rest where j: "accessKeyJoin accessKey s = data # rest"
      by (cases "accessKeyJoin accessKey s") simp_all
    then have "data \<in> set (accessKeyJoin accessKey s)" by simp
    then obtain a where "data \<in> set (access_key_to_account_map s)" "a \<in> set (access_keys s)"
      "key_name a = accessKey" "map_accessKeyId data = key_id a"
      unfolding set_accessKeyJoin by blast
    with getAccountIdFromAccessKey_first [OF j, of now] show ?thesis by blast
  qed
  have only: "(t \<le> now \<longrightarrow> ?result = Inl (StorageError Expired)) \<and>
         (now < t \<longrightarrow> ?result = Inr (map_accountId b))"
    if ab: "a \<in> set (access_keys s)" "key_name a = accessKey"
      "b \<in> set (access_key_to_account_map s)" "map_accessKeyId b = key_id a"
      and t: "map_expires b = Some t"
      and onekey: "\<forall>a' \<in> set (access_keys s). key_name a' = accessKey \<longrightarrow> key_id a' = key_id a"
      and onemap: "\<forall>b' \<in> set (access_key_to_account_map s). map_accessKeyId b' = key_id a \<longrightarrow> b' = b"
    for a b t
  proof -
    from ab have "b \<in> set (accessKeyJoin accessKey s)"
      unfolding set_accessKeyJoin by blast
    then obtain data rest where j: "accessKeyJoin accessKey s = data # rest"
      by (cases "accessKeyJoin accessKey s") simp_all
    then have "data \<in> set (accessKeyJoin accessKey s)" by simp
    then obtain a' where "data \<in> set (access_key_to_account_map s)" "a' \<in> set (access_keys s)"
      "key_name a' = accessKey" "map_accessKeyId data = key_id a'"
      unfolding set_accessKeyJoin by blast
    with onekey onemap have "data = b" by auto
    with getAccountIdFromAccessKey_first [OF j, of now] t show ?thesis by simp
  qed
  have first: "data \<in> set (access_key_to_account_map s) \<and>
         (\<exists>a \<in> set (access_keys s). key_name a = accessKey \<and> map_accessKeyId data = key_id a) \<and>
         (t \<le> now \<longrightarrow> ?result = Inl (StorageError Expired)) \<and>
         (now < t \<longrightarrow> ?result = Inr (map_accountId data))"
    if j: "accessKeyJoin accessKey s = data # rest" and e: "map_expires data = Some t" for data rest t
  proof -
    have "data \<in> set (accessKeyJoin accessKey s)" using j by simp
    then have "data \<in> set (access_key_to_account_map s) \<and>
         (\<exists>a \<in> set (access_keys s). key_name a = accessKey \<and> map_accessKeyId data = key_id a)"
      unfolding set_accessKeyJoin by simp
    with getAccountIdFromAccessKey_first [OF j, of now] e show ?thesis by simp
  qed
  have ex: "\<exists>a \<in> set (access_keys s). key_name a = accessKey \<and>
           (\<exists>b \<in> set (access_key_to_account_map s). map_accessKeyId b = key_id a)"
    if "?result = Inl (StorageError Expired)"
  proof (cases "accessKeyJoin accessKey s")
    case Nil
    from getAccountIdFromAccessKey_none [OF this, of now] that show ?thesis by simp
  next
    case (Cons data rest)
    then show ?thesis by (rule mapped)
  qed
  show ?thesis
    using nf some only first ex getAccountIdFromAccessKey_sameRows by blast
qed

theorem getAccountIdFromAccessKey_outcomes_witness:
  "fst (getAccountIdFromAccessKey 1999 ''ci-key'' keyStore) = Inr ''acc-1''
   \<and> fst (getAccountIdFromAccessKey 2000 ''ci-key'' keyStore) = Inl (StorageError Expired)
   \<and> fst (getAccountIdFromAccessKey 999 ''build-key'' keyStore) = Inr ''acc-2''
   \<and> fst (getAccountIdFromAccessKey 2000 ''orphan'' keyStore) = Inl (StorageError NotFound)
   \<and> fst (getAccountIdFromAccessKey 2000 ''absent'' keyStore) = Inl (StorageError NotFound)"
proof -
  let ?ci = "\<lparr>key_id = ''k1'', key_name = ''ci-key''\<rparr>"
  let ?build = "\<lparr>key_id = ''k2'', key_name = ''build-key''\<rparr>"
  let ?toCi = "\<lparr>map_accessKeyId = ''k1'', map_accountId = ''acc-1'', map_expires = Some 2000\<rparr>"
  let ?toBuild = "\<lparr>map_accessKeyId = ''k2'', map_accountId = ''acc-2'', map_expires = Some 1000\<rparr>"
  have ci: "?ci \<in> set (access_keys keyStore) \<and> key_name ?ci = ''ci-key'' \<and>
      ?toCi \<in> set (access_key_to_account_map keyStore) \<and> map_accessKeyId ?toCi = key_id ?ci \<and>
      map_expires ?toCi = Some 2000 \<and>
      (\<forall>a' \<in> set (access_keys keyStore). key_name a' = ''ci-key'' \<longrightarrow> key_id a' = key_id ?ci) \<and>
      (\<forall>b' \<in> set (access_key_to_account_map keyStore). map_accessKeyId b' = key_id ?ci \<longrightarrow> b' = ?toCi)"
    by (simp add: keyStore_def)
  have build: "?build \<in> set (access_keys keyStore) \<and> key_name ?build = ''build-key'' \<and>
      ?toBuild \<in> set (access_key_to_account_map keyStore) \<and>
      map_accessKeyId ?toBuild = key_id ?build \<and> map_expires ?toBuild = Some 1000 \<and>
      (\<forall>a' \<in> set (access_keys keyStore). key_name a' = ''build-key'' \<longrightarrow> key_id a' = key_id ?build) \<and>
      (\<forall>b' \<in> set (access_key_to_account_map keyStore).
          map_accessKeyId b' = key_id ?build \<longrightarrow> b' = ?toBuild)"
    by (simp add: keyStore_def)
  have orphan: "\<forall>a \<in> set (access_keys keyStore). key_name a = ''orphan'' \<longrightarrow>
       (\<forall>b \<in> set (access_key_to_account_map keyStore). map_accessKeyId b \<noteq> key_id a)"
    by (simp add: keyStore_def)
  have absent: "\<forall>a \<in> set (access_keys keyStore). key_name a = ''absent'' \<longrightarrow>
       (\<forall>b \<in> set (access_key_to_account_map keyStore). map_accessKeyId b \<noteq> key_id a)"
    by (simp add: keyStore_def)
  have 1: "fst (getAccountIdFromAccessKey 1999 ''ci-key'' keyStore) = Inr ''acc-1''"
    using getAccountIdFromAccessKey_outcomes [of keyStore "''ci-key''" 1999,
        THEN conjunct2, THEN conjunct2, THEN conjunct1, rule_format, OF ci]
    by simp
  have 2: "fst (getAccountIdFromAccessKey 2000 ''ci-key'' keyStore) = Inl (StorageError Expired)"
    using getAccountIdFromAccessKey_outcomes [of keyStore "''ci-key''" 2000,
        THEN conjunct2, THEN conjunct2, THEN conjunct1, rule_format, OF ci]
    by simp
  have 3: "fst (getAccountIdFromAccessKey 999 ''build-key'' keyStore) = Inr ''acc-2''"
    using getAccountIdFromAccessKey_outcomes [of keyStore "''build-key''" 999,
        THEN conjunct2, THEN conjunct2, THEN conjunct1, rule_format, OF build]
    by simp
  have 4: "fst (getAccountIdFromAccessKey 2000 ''orphan'' keyStore) = Inl (StorageError NotFound)"
    using getAccountIdFromAccessKey_outcomes [of keyStore "''orphan''" 2000,
        THEN conjunct1, THEN mp, OF orphan]
    by simp
  have 5: "fst (getAccountIdFromAccessKey 2000 ''absent'' keyStore) = Inl (StorageError NotFound)"
    using getAccountIdFromAccessKey_outcomes [of keyStore "''absent''" 2000,
        THEN conjunct1, THEN mp, OF absent]
    by simp
  from 1 2 3 4 5 show ?thesis by simp
qed

subsection \<open>Package history\<close>

text \<open>
  Claim C7. \<open>updatePackageHistory\<close> with an empty history rejects with \<open>Invalid\<close> and
  returns the store as it was, the statement counter included: no statement, read or
  write, has been sent.
\<close>

theorem updatePackageHistory_empty:
  "updatePackageHistory accountId appId deploymentId [] s = (Inl (StorageError Invalid), s)"
  by (simp add: updatePackageHistory_def reject_def)


end
